theory Spec2Isabelle
  imports Complex_Main
begin

section \<open>YoNutri: the checkout transaction of \<open>server.js\<close>\<close>

text \<open>
  The development embeds the handler of \<open>POST /api/checkout\<close> (\<open>server.js\<close>, lines 80 to 170)
  and the part of the relational store that the handler talks to.

  What is modelled, and what is taken from outside the source:
  \<^item> A JavaScript number is an IEEE 754 double: \<open>NaN\<close>, an infinity, or a finite value, kept
    as the rational it denotes. Every operation computes the exact result and rounds it to
    the nearest double, a tie going to the even one, and overflows to an infinity. The two
    zeros are one value: nothing the handler returns or sends to the store tells them apart.
  \<^item> The scalar fields of the request that the handler hands to the store as they are
    (\<open>email\<close>, \<open>phone\<close>, \<open>couponCode\<close>, \<open>sessionId\<close>, \<open>productSku\<close>, \<open>variantId\<close>) have the
    type the interface gives them (a string, a number) or are absent. The fields the handler
    coerces itself (\<open>qty\<close>, \<open>grams\<close>) are arbitrary primitive JSON values.
  \<^item> An item of the request is an object or \<open>null\<close>; an item that is another JSON
    primitive reads like an object without fields.
  \<^item> The store is the external collaborator: six tables, a connection with an uncommitted
    view, and a schedule of faults saying which of the coming store calls reject. A store
    call that rejects changes nothing in the store. Every call that the handler awaits can reject, the
    rollback too; \<open>release\<close> is not awaited and does not reject. The handler makes all its
    queries between \<open>beginTransaction\<close> and \<open>commit\<close> or \<open>rollback\<close>, so they read and write the
    view of the connection.
  \<^item> The store compares strings by equality and returns rows in table order. Its decimal
    columns hold exact decimals, and \<open>Number\<close> of such a column is the nearest double. A
    number bound to a statement matches a column value when that value reads as the same
    double. The store has neither \<open>NaN\<close> nor infinities: a statement with such a parameter
    is rejected. A row keeps a number as it was bound. The generators of the auto-increment
    ids are outside the transaction: a rollback does not give an id back.
  \<^item> Only the columns that the checkout reads or writes are in the rows.
\<close>

subsection \<open>JavaScript numbers\<close>

datatype jsnum = NaN | PInf | NInf | Fin rat

text \<open>
  Powers of two, the number of binary digits of an integer, and the integer part of the
  binary logarithm of a positive rational.
\<close>

definition pow2 :: "int \<Rightarrow> rat" where
  "pow2 e = (if 0 \<le> e then 2 ^ nat e else 1 / 2 ^ nat (- e))"

function bits :: "int \<Rightarrow> int" where
  "bits a = (if a \<le> 0 then 0 else bits (a div 2) + 1)"
  by pat_completeness auto
termination
  by (relation "measure nat") auto

declare bits.simps [simp del]

definition floor_log2 :: "rat \<Rightarrow> int" where
  "floor_log2 r =
     (case quotient_of r of
        (a, b) \<Rightarrow>
          (let e = bits a - bits b
           in if pow2 e \<le> r then e else e - 1))"

text \<open>The nearest integer, a tie going to the even one.\<close>

definition round_half_even :: "rat \<Rightarrow> int" where
  "round_half_even x =
     (let n = \<lfloor>x\<rfloor>; f = x - of_int n
      in if f < 1 / 2 then n else if 1 / 2 < f then n + 1 else if even n then n else n + 1)"

text \<open>
  The double nearest to a rational: 53 significant bits, the smallest exponent of the last
  place being -1074 (the subnormal numbers), and an infinity from 2 to the power 1024 on.
\<close>

definition round_double :: "rat \<Rightarrow> jsnum" where
  "round_double r =
     (if r = 0 then Fin 0
      else
        (let e = max (floor_log2 \<bar>r\<bar> - 52) (- 1074);
             n = round_half_even (\<bar>r\<bar> / pow2 e)
         in if 972 \<le> e \<or> (e = 971 \<and> 9007199254740992 \<le> n)
            then (if r < 0 then NInf else PInf)
            else Fin (sgn r * of_int n * pow2 e)))"

text \<open>\<open>a + b\<close>, \<open>a - b\<close>, \<open>a * b\<close> and \<open>a / b\<close>.\<close>

fun js_add :: "jsnum \<Rightarrow> jsnum \<Rightarrow> jsnum" where
  "js_add NaN _ = NaN"
| "js_add _ NaN = NaN"
| "js_add (Fin a) (Fin b) = round_double (a + b)"
| "js_add PInf NInf = NaN"
| "js_add NInf PInf = NaN"
| "js_add PInf _ = PInf"
| "js_add _ PInf = PInf"
| "js_add NInf _ = NInf"
| "js_add _ NInf = NInf"

fun js_sub :: "jsnum \<Rightarrow> jsnum \<Rightarrow> jsnum" where
  "js_sub NaN _ = NaN"
| "js_sub _ NaN = NaN"
| "js_sub (Fin a) (Fin b) = round_double (a - b)"
| "js_sub PInf PInf = NaN"
| "js_sub NInf NInf = NaN"
| "js_sub PInf _ = PInf"
| "js_sub _ PInf = NInf"
| "js_sub NInf _ = NInf"
| "js_sub _ NInf = PInf"

fun js_mul :: "jsnum \<Rightarrow> jsnum \<Rightarrow> jsnum" where
  "js_mul NaN _ = NaN"
| "js_mul _ NaN = NaN"
| "js_mul (Fin a) (Fin b) = round_double (a * b)"
| "js_mul (Fin a) y = (if a = 0 then NaN else if (0 < a) = (y = PInf) then PInf else NInf)"
| "js_mul x (Fin b) = (if b = 0 then NaN else if (0 < b) = (x = PInf) then PInf else NInf)"
| "js_mul x y = (if x = y then PInf else NInf)"

text \<open>
  The handler divides by the constant 100 only. For a zero divisor the sign of the result
  is that of a division by the positive zero.
\<close>

fun js_div :: "jsnum \<Rightarrow> jsnum \<Rightarrow> jsnum" where
  "js_div NaN _ = NaN"
| "js_div _ NaN = NaN"
| "js_div (Fin a) (Fin b) =
     (if b = 0 then (if a = 0 then NaN else if 0 < a then PInf else NInf)
      else round_double (a / b))"
| "js_div (Fin a) y = Fin 0"
| "js_div x (Fin b) = (if (0 \<le> b) = (x = PInf) then PInf else NInf)"
| "js_div x y = NaN"

text \<open>\<open>Math.max\<close> and \<open>Math.min\<close> return \<open>NaN\<close> when an argument is \<open>NaN\<close>.\<close>

fun js_max :: "jsnum \<Rightarrow> jsnum \<Rightarrow> jsnum" where
  "js_max NaN _ = NaN"
| "js_max _ NaN = NaN"
| "js_max (Fin a) (Fin b) = Fin (max a b)"
| "js_max PInf _ = PInf"
| "js_max _ PInf = PInf"
| "js_max NInf y = y"
| "js_max x NInf = x"

fun js_min :: "jsnum \<Rightarrow> jsnum \<Rightarrow> jsnum" where
  "js_min NaN _ = NaN"
| "js_min _ NaN = NaN"
| "js_min (Fin a) (Fin b) = Fin (min a b)"
| "js_min NInf _ = NInf"
| "js_min _ NInf = NInf"
| "js_min PInf y = y"
| "js_min x PInf = x"

text \<open>\<open>a >= b\<close> is false when either side is \<open>NaN\<close>.\<close>

fun js_ge :: "jsnum \<Rightarrow> jsnum \<Rightarrow> bool" where
  "js_ge NaN _ = False"
| "js_ge _ NaN = False"
| "js_ge (Fin a) (Fin b) = (b \<le> a)"
| "js_ge PInf _ = True"
| "js_ge _ NInf = True"
| "js_ge _ _ = False"

text \<open>
  \<open>Math.round\<close>: the nearest integer, a tie going up; the language defines it on the exact
  value, and the result is a double whenever the argument is.
\<close>

fun js_round :: "jsnum \<Rightarrow> jsnum" where
  "js_round (Fin a) = Fin (of_int \<lfloor>a + 1 / 2\<rfloor>)"
| "js_round x = x"

subsection \<open>JSON values\<close>

text \<open>
  \<open>JNum r\<close> is a number written \<open>r\<close> in the body; \<open>JSON.parse\<close> reads it as the nearest
  double.
\<close>

datatype jsval = JUndefined | JNull | JBool bool | JNum rat | JStr string

text \<open>Truthiness, as used by \<open>if (x)\<close> and \<open>x || y\<close>.\<close>

fun truthy :: "jsval \<Rightarrow> bool" where
  "truthy JUndefined = False"
| "truthy JNull = False"
| "truthy (JBool b) = b"
| "truthy (JNum r) = (round_double r \<noteq> Fin 0)"
| "truthy (JStr s) = (s \<noteq> [])"

text \<open>
  \<open>Number(v)\<close>. The reading of a string as a number (ECMAScript's StringToNumber) is the
  parameter \<open>sn\<close>: nothing below depends on what it returns for a given string.
\<close>

fun js_Number :: "(string \<Rightarrow> jsnum) \<Rightarrow> jsval \<Rightarrow> jsnum" where
  "js_Number sn JUndefined = NaN"
| "js_Number sn JNull = Fin 0"
| "js_Number sn (JBool b) = Fin (if b then 1 else 0)"
| "js_Number sn (JNum r) = round_double r"
| "js_Number sn (JStr s) = sn s"

subsection \<open>The request\<close>

record item =
  variantId :: "rat option"
  productSku :: "string option"
  grams :: jsval
  qty :: jsval

text \<open>
  The \<open>items\<close> field: absent, a JSON value that is not an array, or an array. An element of
  the array is an object (with the four fields above, each possibly absent) or JSON \<open>null\<close>
  (\<open>None\<close>), on which reading a property throws.
\<close>

datatype items_field = ItemsUndefined | ItemsNotArray | ItemsArray "item option list"

record body =
  b_email :: "string option"
  b_phone :: "string option"
  b_items :: items_field
  b_couponCode :: "string option"
  b_sessionId :: "string option"

subsection \<open>The store\<close>

record user_row =
  u_id :: int
  u_first_name :: string
  u_last_name :: string
  u_email :: string
  u_phone :: string
  u_password_hash :: string

record product_row =
  p_id :: int
  p_sku :: string

record variant_row =
  v_id :: int
  v_product_id :: int
  v_grams :: rat
  v_price :: rat

record coupon_row =
  c_code :: string
  c_discount_type :: string
  c_value :: rat
  c_min_subtotal :: rat
  c_is_active :: bool
  c_expires_at :: "nat option"

record order_row =
  o_id :: int
  o_user_id :: "int option"
  o_session_id :: string
  o_total_amount :: rat
  o_status :: string
  o_payment_reference :: "string option"

record order_item_row =
  oi_id :: int
  oi_order_id :: int
  oi_product_variant_id :: int
  oi_quantity :: rat
  oi_unit_price :: rat

record tables =
  users :: "user_row list"
  products :: "product_row list"
  product_variants :: "variant_row list"
  coupons :: "coupon_row list"
  orders :: "order_row list"
  order_items :: "order_item_row list"

datatype event = Acquire | Begin | Select | Insert | Commit | Rollback | Release | Rejected

text \<open>
  The world of one request: the committed tables, the uncommitted view of the connection,
  the generators of the auto-increment ids, the server's clock, the schedule of faults (the
  head says whether the next store call rejects, and with which message; an empty schedule
  means no fault) and the log of the store calls: the name of each call that was carried
  out, and \<open>Rejected\<close> for each call that the store rejected.
\<close>

record world =
  committed :: tables
  conn_view :: tables
  next_user_id :: int
  next_order_id :: int
  next_order_item_id :: int
  clock :: nat
  faults :: "string option list"
  log :: "event list"

type_synonym 'a io = "world \<Rightarrow> (string + 'a) \<times> world"

definition log_event :: "event \<Rightarrow> world \<Rightarrow> world" where
  "log_event e w = w\<lparr>log := log w @ [e]\<rparr>"

definition pop_fault :: "world \<Rightarrow> string option \<times> world" where
  "pop_fault w =
     (case faults w of
        [] \<Rightarrow> (None, w)
      | None # fs \<Rightarrow> (None, w\<lparr>faults := fs\<rparr>)
      | Some msg # fs \<Rightarrow> (Some msg, log_event Rejected (w\<lparr>faults := fs\<rparr>)))"

text \<open>\<open>pool.getConnection()\<close>\<close>

definition getConnection :: "unit io" where
  "getConnection w =
     (case pop_fault w of
        (Some msg, w1) \<Rightarrow> (Inl msg, w1)
      | (None, w1) \<Rightarrow> (Inr (), log_event Acquire w1))"

text \<open>\<open>conn.beginTransaction()\<close>: the connection's view starts from the committed tables.\<close>

definition beginTransaction :: "unit io" where
  "beginTransaction w =
     (case pop_fault w of
        (Some msg, w1) \<Rightarrow> (Inl msg, w1)
      | (None, w1) \<Rightarrow> (Inr (), log_event Begin (w1\<lparr>conn_view := committed w1\<rparr>)))"

text \<open>\<open>conn.commit()\<close>: the view becomes the committed tables.\<close>

definition commit :: "unit io" where
  "commit w =
     (case pop_fault w of
        (Some msg, w1) \<Rightarrow> (Inl msg, w1)
      | (None, w1) \<Rightarrow> (Inr (), log_event Commit (w1\<lparr>committed := conn_view w1\<rparr>)))"

text \<open>
  \<open>conn.rollback()\<close>: the view is thrown away. When the call rejects, the view stays as it
  is, uncommitted.
\<close>

definition rollback :: "unit io" where
  "rollback w =
     (case pop_fault w of
        (Some msg, w1) \<Rightarrow> (Inl msg, w1)
      | (None, w1) \<Rightarrow> (Inr (), log_event Rollback (w1\<lparr>conn_view := committed w1\<rparr>)))"

text \<open>\<open>conn.release()\<close>\<close>

definition release :: "world \<Rightarrow> world" where
  "release w = log_event Release w"

text \<open>
  A number bound to a \<open>?\<close> of a statement. The driver writes \<open>NaN\<close> and the infinities as
  the words \<open>NaN\<close> and \<open>Infinity\<close>, which the store reads as the name of a column that does
  not exist; \<open>clause\<close> is where the store says it met the name.
\<close>

definition unknown_column :: "string \<Rightarrow> string \<Rightarrow> string" where
  "unknown_column name clause =
     ''Unknown column '' @ [CHR 0x27] @ name @ [CHR 0x27] @ '' in '' @ [CHR 0x27] @ clause
       @ [CHR 0x27]"

definition sql_number :: "string \<Rightarrow> jsnum \<Rightarrow> string + rat" where
  "sql_number clause x =
     (case x of
        NaN \<Rightarrow> Inl (unknown_column ''NaN'' clause)
      | PInf \<Rightarrow> Inl (unknown_column ''Infinity'' clause)
      | NInf \<Rightarrow> Inl (unknown_column ''Infinity'' clause)
      | Fin r \<Rightarrow> Inr r)"

text \<open>\<open>SELECT id FROM users WHERE email=?\<close>\<close>

definition users_by_email :: "tables \<Rightarrow> string \<Rightarrow> int list" where
  "users_by_email T email = map u_id (filter (\<lambda>u. u_email u = email) (users T))"

definition select_user :: "string \<Rightarrow> int list io" where
  "select_user email w =
     (case pop_fault w of
        (Some msg, w1) \<Rightarrow> (Inl msg, w1)
      | (None, w1) \<Rightarrow> (Inr (users_by_email (conn_view w1) email), log_event Select w1))"

text \<open>
  \<open>INSERT INTO users (first_name,last_name,email,phone,password_hash) VALUES ("","",?,?,"")\<close>;
  the result is \<open>insertId\<close>.
\<close>

definition new_user :: "int \<Rightarrow> string \<Rightarrow> string \<Rightarrow> user_row" where
  "new_user i email phone =
     \<lparr>u_id = i, u_first_name = [], u_last_name = [], u_email = email, u_phone = phone,
      u_password_hash = []\<rparr>"

definition insert_user :: "string \<Rightarrow> string \<Rightarrow> int io" where
  "insert_user email phone w =
     (case pop_fault w of
        (Some msg, w1) \<Rightarrow> (Inl msg, w1)
      | (None, w1) \<Rightarrow>
          (Inr (next_user_id w1),
           log_event Insert
             (w1\<lparr>conn_view := (conn_view w1)
                    \<lparr>users := users (conn_view w1) @ [new_user (next_user_id w1) email phone]\<rparr>,
                  next_user_id := next_user_id w1 + 1\<rparr>)))"

text \<open>\<open>SELECT id, price FROM product_variants WHERE id=?\<close>\<close>

definition variants_by_id :: "tables \<Rightarrow> rat \<Rightarrow> (int \<times> rat) list" where
  "variants_by_id T vid =
     map (\<lambda>v. (v_id v, v_price v))
       (filter (\<lambda>v. round_double (of_int (v_id v)) = Fin vid) (product_variants T))"

definition select_variant_by_id :: "jsnum \<Rightarrow> (int \<times> rat) list io" where
  "select_variant_by_id vid w =
     (case pop_fault w of
        (Some msg, w1) \<Rightarrow> (Inl msg, w1)
      | (None, w1) \<Rightarrow>
          (case sql_number ''where clause'' vid of
             Inl msg \<Rightarrow> (Inl msg, log_event Rejected w1)
           | Inr r \<Rightarrow> (Inr (variants_by_id (conn_view w1) r), log_event Select w1)))"

text \<open>
  \<open>SELECT v.id, v.price FROM product_variants v JOIN products p ON p.id=v.product_id
  WHERE p.sku=? AND v.grams=? LIMIT 1\<close>. An absent SKU is bound as \<open>NULL\<close>, which equals
  no SKU.
\<close>

definition variants_by_sku :: "tables \<Rightarrow> string option \<Rightarrow> rat \<Rightarrow> (int \<times> rat) list" where
  "variants_by_sku T sku g =
     take 1
       (map (\<lambda>v. (v_id v, v_price v))
          (filter
             (\<lambda>v. round_double (v_grams v) = Fin g \<and>
                  (\<exists>p \<in> set (products T). p_id p = v_product_id v \<and> Some (p_sku p) = sku))
             (product_variants T)))"

definition select_variant_by_sku :: "string option \<Rightarrow> jsnum \<Rightarrow> (int \<times> rat) list io" where
  "select_variant_by_sku sku g w =
     (case pop_fault w of
        (Some msg, w1) \<Rightarrow> (Inl msg, w1)
      | (None, w1) \<Rightarrow>
          (case sql_number ''where clause'' g of
             Inl msg \<Rightarrow> (Inl msg, log_event Rejected w1)
           | Inr r \<Rightarrow> (Inr (variants_by_sku (conn_view w1) sku r), log_event Select w1)))"

text \<open>
  \<open>SELECT discount_type, value, min_subtotal, is_active,
  (expires_at IS NULL OR expires_at > NOW()) AS valid FROM coupons WHERE code=?\<close>
\<close>

record coupon_result =
  discount_type :: string
  cr_value :: rat
  min_subtotal :: rat
  is_active :: bool
  valid :: bool

definition coupon_result_of :: "nat \<Rightarrow> coupon_row \<Rightarrow> coupon_result" where
  "coupon_result_of t c =
     \<lparr>discount_type = c_discount_type c, cr_value = c_value c, min_subtotal = c_min_subtotal c,
      is_active = c_is_active c,
      valid = (case c_expires_at c of None \<Rightarrow> True | Some e \<Rightarrow> t < e)\<rparr>"

definition coupons_by_code :: "tables \<Rightarrow> nat \<Rightarrow> string \<Rightarrow> coupon_result list" where
  "coupons_by_code T t couponCode =
     map (coupon_result_of t) (filter (\<lambda>c. c_code c = couponCode) (coupons T))"

definition select_coupon :: "string \<Rightarrow> coupon_result list io" where
  "select_coupon couponCode w =
     (case pop_fault w of
        (Some msg, w1) \<Rightarrow> (Inl msg, w1)
      | (None, w1) \<Rightarrow> (Inr (coupons_by_code (conn_view w1) (clock w1) couponCode), log_event Select w1))"

text \<open>
  \<open>INSERT INTO orders (user_id, session_id, total_amount, status, payment_reference)
  VALUES (?,?,?,?,NULL)\<close>; the result is \<open>insertId\<close>.
\<close>

definition new_order :: "int \<Rightarrow> int option \<Rightarrow> string \<Rightarrow> rat \<Rightarrow> string \<Rightarrow> order_row" where
  "new_order i userId sessionId tot st =
     \<lparr>o_id = i, o_user_id = userId, o_session_id = sessionId, o_total_amount = tot,
      o_status = st, o_payment_reference = None\<rparr>"

definition insert_order :: "int option \<Rightarrow> string \<Rightarrow> jsnum \<Rightarrow> string \<Rightarrow> int io" where
  "insert_order userId sessionId tot st w =
     (case pop_fault w of
        (Some msg, w1) \<Rightarrow> (Inl msg, w1)
      | (None, w1) \<Rightarrow>
          (case sql_number ''field list'' tot of
             Inl msg \<Rightarrow> (Inl msg, log_event Rejected w1)
           | Inr t \<Rightarrow>
               (Inr (next_order_id w1),
                log_event Insert
                  (w1\<lparr>conn_view := (conn_view w1)
                         \<lparr>orders := orders (conn_view w1)
                            @ [new_order (next_order_id w1) userId sessionId t st]\<rparr>,
                       next_order_id := next_order_id w1 + 1\<rparr>))))"

text \<open>
  \<open>INSERT INTO order_items (order_id, product_variant_id, quantity, unit_price)
  VALUES (?,?,?,?)\<close>
\<close>

definition new_order_item :: "int \<Rightarrow> int \<Rightarrow> int \<Rightarrow> rat \<Rightarrow> rat \<Rightarrow> order_item_row" where
  "new_order_item i orderId vid q u =
     \<lparr>oi_id = i, oi_order_id = orderId, oi_product_variant_id = vid, oi_quantity = q,
      oi_unit_price = u\<rparr>"

definition insert_order_item :: "int \<Rightarrow> int \<Rightarrow> jsnum \<Rightarrow> jsnum \<Rightarrow> unit io" where
  "insert_order_item orderId vid q u w =
     (case pop_fault w of
        (Some msg, w1) \<Rightarrow> (Inl msg, w1)
      | (None, w1) \<Rightarrow>
          (case sql_number ''field list'' q of
             Inl msg \<Rightarrow> (Inl msg, log_event Rejected w1)
           | Inr qr \<Rightarrow>
               (case sql_number ''field list'' u of
                  Inl msg \<Rightarrow> (Inl msg, log_event Rejected w1)
                | Inr ur \<Rightarrow>
                    (Inr (),
                     log_event Insert
                       (w1\<lparr>conn_view := (conn_view w1)
                              \<lparr>order_items := order_items (conn_view w1)
                                 @ [new_order_item (next_order_item_id w1) orderId vid qr ur]\<rparr>,
                            next_order_item_id := next_order_item_id w1 + 1\<rparr>)))))"

subsection \<open>The handler\<close>

definition variant_not_found :: string where
  "variant_not_found = ''Variant not found''"

definition cart_is_empty :: string where
  "cart_is_empty = ''Cart is empty''"

text \<open>The message of the TypeError thrown by \<open>it.variantId\<close> when \<open>it\<close> is \<open>null\<close>.\<close>

definition null_item_message :: string where
  "null_item_message = ''Cannot read properties of null (reading 'variantId')''"

record resolved_item =
  r_variantId :: int
  r_qty :: jsnum
  r_unit :: jsnum

datatype response_body = Ok_body int jsnum jsnum jsnum | Error_body string

text \<open>
  What the caller sees: a response with its status, or nothing. No response is written when
  \<open>getConnection\<close> rejects (it is outside the \<open>try\<close>) and when \<open>rollback\<close> rejects (it is
  awaited in the \<open>catch\<close> before the response): the handler's promise then rejects with
  that error.
\<close>

datatype outcome = Response nat response_body | Unhandled string

text \<open>Lines 90 to 101: find or create the user.\<close>

definition resolve_user :: "string \<Rightarrow> string \<Rightarrow> int option io" where
  "resolve_user email phone w =
     (if email \<noteq> [] then
        (case select_user email w of
           (Inl e, w1) \<Rightarrow> (Inl e, w1)
         | (Inr u, w1) \<Rightarrow>
             (case u of
                uid # _ \<Rightarrow> (Inr (Some uid), w1)
              | [] \<Rightarrow>
                  (case insert_user email phone w1 of
                     (Inl e, w2) \<Rightarrow> (Inl e, w2)
                   | (Inr ins, w2) \<Rightarrow> (Inr (Some ins), w2))))
      else (Inr None, w))"

text \<open>\<open>r[0]\<close>: the first row, \<open>undefined\<close> when there is none.\<close>

definition first_row :: "'a list \<Rightarrow> 'a option" where
  "first_row r = (case r of [] \<Rightarrow> None | x # _ \<Rightarrow> Some x)"

text \<open>
  Lines 108 to 121: \<open>if (it.variantId)\<close> tests the truthiness of the number as parsed.
\<close>

definition lookup_variant :: "(string \<Rightarrow> jsnum) \<Rightarrow> item \<Rightarrow> (int \<times> rat) option io" where
  "lookup_variant sn it w =
     (let by_sku = select_variant_by_sku (productSku it) (js_Number sn (grams it)) in
      case (case variantId it of
              None \<Rightarrow> by_sku w
            | Some v \<Rightarrow>
                if round_double v \<noteq> Fin 0 then select_variant_by_id (round_double v) w
                else by_sku w) of
        (Inl e, w1) \<Rightarrow> (Inl e, w1)
      | (Inr r, w1) \<Rightarrow> (Inr (first_row r), w1))"

text \<open>\<open>a || b\<close>\<close>

definition js_or :: "jsval \<Rightarrow> jsval \<Rightarrow> jsval" where
  "js_or a b = (if truthy a then a else b)"

text \<open>Line 124: \<open>Math.max(1, Number(it.qty || 1))\<close>\<close>

definition coerce_qty :: "(string \<Rightarrow> jsnum) \<Rightarrow> item \<Rightarrow> jsnum" where
  "coerce_qty sn it = js_max (Fin 1) (js_Number sn (js_or (qty it) (JNum 1)))"

text \<open>
  Lines 107 to 128: the loop over the items, with \<open>resolved\<close> and \<open>subtotal\<close>. The price comes
  as a decimal and \<open>Number\<close> makes it a double.
\<close>

fun resolve_items ::
  "(string \<Rightarrow> jsnum) \<Rightarrow> item option list \<Rightarrow> resolved_item list \<Rightarrow> jsnum \<Rightarrow>
   (resolved_item list \<times> jsnum) io" where
  "resolve_items sn [] resolved subtotal w = (Inr (resolved, subtotal), w)"
| "resolve_items sn (it # its) resolved subtotal w =
     (case it of
        None \<Rightarrow> (Inl null_item_message, w)
      | Some i \<Rightarrow>
          (case lookup_variant sn i w of
             (Inl e, w1) \<Rightarrow> (Inl e, w1)
           | (Inr None, w1) \<Rightarrow> (Inl variant_not_found, w1)
           | (Inr (Some (rid, rprice)), w1) \<Rightarrow>
               (let qty_n = coerce_qty sn i; unit_n = round_double rprice
                in resolve_items sn its
                     (resolved @ [\<lparr>r_variantId = rid, r_qty = qty_n, r_unit = unit_n\<rparr>])
                     (js_add subtotal (js_mul qty_n unit_n)) w1)))"

text \<open>Lines 138 to 143: the discount of the first coupon row, if it applies.\<close>

definition coupon_discount :: "coupon_result list \<Rightarrow> jsnum \<Rightarrow> jsnum" where
  "coupon_discount c subtotal =
     (case c of
        [] \<Rightarrow> Fin 0
      | c0 # _ \<Rightarrow>
          if is_active c0 \<and> valid c0 \<and> js_ge subtotal (round_double (min_subtotal c0)) then
            js_min
              (if discount_type c0 = ''percent''
               then js_div
                      (js_round
                         (js_mul
                            (js_mul subtotal (js_div (round_double (cr_value c0)) (Fin 100)))
                            (Fin 100)))
                      (Fin 100)
               else round_double (cr_value c0))
              subtotal
          else Fin 0)"

text \<open>Lines 131 to 144.\<close>

definition apply_coupon :: "string \<Rightarrow> jsnum \<Rightarrow> jsnum io" where
  "apply_coupon couponCode subtotal w =
     (if couponCode \<noteq> [] then
        (case select_coupon couponCode w of
           (Inl e, w1) \<Rightarrow> (Inl e, w1)
         | (Inr c, w1) \<Rightarrow> (Inr (coupon_discount c subtotal), w1))
      else (Inr (Fin 0), w))"

text \<open>Lines 154 to 159.\<close>

fun insert_items :: "int \<Rightarrow> resolved_item list \<Rightarrow> unit io" where
  "insert_items orderId [] w = (Inr (), w)"
| "insert_items orderId (r # rs) w =
     (case insert_order_item orderId (r_variantId r) (r_qty r) (r_unit r) w of
        (Inl e, w1) \<Rightarrow> (Inl e, w1)
      | (Inr _, w1) \<Rightarrow> insert_items orderId rs w1)"

text \<open>Lines 87 to 162: the body of the \<open>try\<close>. \<open>Inl e\<close> is the exception \<open>e\<close>.\<close>

definition checkout_try ::
  "(string \<Rightarrow> jsnum) \<Rightarrow> string \<Rightarrow> string \<Rightarrow> item option list \<Rightarrow> string \<Rightarrow> string \<Rightarrow>
   response_body io" where
  "checkout_try sn email phone its couponCode sessionId w =
     (case beginTransaction w of
        (Inl e, w1) \<Rightarrow> (Inl e, w1)
      | (Inr _, w1) \<Rightarrow>
     (case resolve_user email phone w1 of
        (Inl e, w2) \<Rightarrow> (Inl e, w2)
      | (Inr userId, w2) \<Rightarrow>
     (case resolve_items sn its [] (Fin 0) w2 of
        (Inl e, w3) \<Rightarrow> (Inl e, w3)
      | (Inr (resolved, subtotal), w3) \<Rightarrow>
     (case apply_coupon couponCode subtotal w3 of
        (Inl e, w4) \<Rightarrow> (Inl e, w4)
      | (Inr discount, w4) \<Rightarrow>
     (let tot = js_max (Fin 0) (js_sub subtotal discount) in
      case insert_order userId sessionId tot ''created'' w4 of
        (Inl e, w5) \<Rightarrow> (Inl e, w5)
      | (Inr orderId, w5) \<Rightarrow>
     (case insert_items orderId resolved w5 of
        (Inl e, w6) \<Rightarrow> (Inl e, w6)
      | (Inr _, w6) \<Rightarrow>
     (case commit w6 of
        (Inl e, w7) \<Rightarrow> (Inl e, w7)
      | (Inr _, w7) \<Rightarrow> (Inr (Ok_body orderId subtotal discount tot), w7))))))))"

text \<open>\<open>req.body || {}\<close> and the defaults of the destructuring (line 81).\<close>

definition empty_body :: body where
  "empty_body =
     \<lparr>b_email = None, b_phone = None, b_items = ItemsUndefined, b_couponCode = None,
      b_sessionId = None\<rparr>"

definition or_empty :: "string option \<Rightarrow> string" where
  "or_empty x = (case x of None \<Rightarrow> [] | Some s \<Rightarrow> s)"

definition items_or_default :: "items_field \<Rightarrow> items_field" where
  "items_or_default x = (case x of ItemsUndefined \<Rightarrow> ItemsArray [] | _ \<Rightarrow> x)"

text \<open>
  Lines 163 to 169: the \<open>catch\<close> and the \<open>finally\<close>. The rollback is awaited first; when it
  rejects, the rest of the \<open>catch\<close> is skipped, the \<open>finally\<close> still releases the connection,
  and the handler's promise rejects.
\<close>

definition catch_and_finally :: "string \<Rightarrow> world \<Rightarrow> outcome \<times> world" where
  "catch_and_finally e w =
     (case rollback w of
        (Inl e2, w1) \<Rightarrow> (Unhandled e2, release w1)
      | (Inr _, w1) \<Rightarrow> (Response 500 (Error_body e), release w1))"

text \<open>Lines 80 to 170: the handler, with its \<open>try\<close>, \<open>catch\<close> and \<open>finally\<close>.\<close>

definition checkout :: "(string \<Rightarrow> jsnum) \<Rightarrow> body option \<Rightarrow> world \<Rightarrow> outcome \<times> world" where
  "checkout sn req_body w =
     (let b = (case req_body of None \<Rightarrow> empty_body | Some x \<Rightarrow> x);
          email = or_empty (b_email b);
          phone = or_empty (b_phone b);
          its = items_or_default (b_items b);
          couponCode = or_empty (b_couponCode b);
          sessionId = or_empty (b_sessionId b)
      in case its of
           ItemsArray (i # rest) \<Rightarrow>
             (case getConnection w of
                (Inl e, w1) \<Rightarrow> (Unhandled e, w1)
              | (Inr _, w1) \<Rightarrow>
                  (case checkout_try sn email phone (i # rest) couponCode sessionId w1 of
                     (Inr ok, w2) \<Rightarrow> (Response 200 ok, release w2)
                   | (Inl e, w2) \<Rightarrow> catch_and_finally e w2))
         | _ \<Rightarrow> (Response 400 (Error_body cart_is_empty), w))"

subsection \<open>What a transaction may change\<close>

text \<open>
  \<open>grows T T'\<close>: the catalogue and the coupons are the same, and the users, orders and order
  items of \<open>T\<close> are all still there, unchanged and in place, with rows added after them.
\<close>

definition grows :: "tables \<Rightarrow> tables \<Rightarrow> bool" where
  "grows T T' \<longleftrightarrow>
     products T' = products T \<and> product_variants T' = product_variants T \<and>
     coupons T' = coupons T \<and>
     (\<exists>xs. users T' = users T @ xs) \<and>
     (\<exists>xs. orders T' = orders T @ xs) \<and>
     (\<exists>xs. order_items T' = order_items T @ xs)"

text \<open>A stretch of queries inside the transaction: only the view changes, and it grows.\<close>

definition tx_frame :: "world \<Rightarrow> world \<Rightarrow> bool" where
  "tx_frame w w' \<longleftrightarrow>
     committed w' = committed w \<and> clock w' = clock w \<and> grows (conn_view w) (conn_view w') \<and>
     (\<exists>evs. log w' = log w @ evs \<and> set evs \<subseteq> {Select, Insert, Rejected})"

definition pre_commit :: "world \<Rightarrow> world \<Rightarrow> bool" where
  "pre_commit w w' \<longleftrightarrow>
     committed w' = committed w \<and>
     (\<exists>evs. log w' = log w @ evs \<and> set evs \<subseteq> {Begin, Select, Insert, Rejected})"

text \<open>A read: nothing of the store changes (the schedule of faults and the log may).\<close>

definition same_tables :: "world \<Rightarrow> world \<Rightarrow> bool" where
  "same_tables w w' \<longleftrightarrow>
     committed w' = committed w \<and> conn_view w' = conn_view w \<and> clock w' = clock w \<and>
     next_user_id w' = next_user_id w \<and> next_order_id w' = next_order_id w \<and>
     next_order_item_id w' = next_order_item_id w"

text \<open>Two worlds that differ in their logs only.\<close>

definition same_but_log :: "world \<Rightarrow> world \<Rightarrow> bool" where
  "same_but_log w w' \<longleftrightarrow> w' = w\<lparr>log := log w'\<rparr>"

subsection \<open>The lookup of an item, read off the tables\<close>

text \<open>
  \<open>if (it.variantId)\<close> holds for a number that is not read as zero. \<open>lookup_of\<close> is what
  the lookup of an item gives on tables \<open>T\<close> when the store has no fault: the message of
  the store when the number sent is none, and otherwise the first row, if any, of the
  lookup by id or by SKU and weight. \<open>variant_of\<close> is the row found.
\<close>

definition dispatches_by_id :: "item \<Rightarrow> bool" where
  "dispatches_by_id i \<longleftrightarrow>
     (case variantId i of None \<Rightarrow> False | Some v \<Rightarrow> round_double v \<noteq> Fin 0)"

definition lookup_of ::
  "(string \<Rightarrow> jsnum) \<Rightarrow> tables \<Rightarrow> item \<Rightarrow> string + (int \<times> rat) option" where
  "lookup_of sn T i =
     (let by_sku =
            (case sql_number ''where clause'' (js_Number sn (grams i)) of
               Inl msg \<Rightarrow> Inl msg
             | Inr g \<Rightarrow> Inr (first_row (variants_by_sku T (productSku i) g)))
      in case variantId i of
           None \<Rightarrow> by_sku
         | Some v \<Rightarrow>
             if round_double v \<noteq> Fin 0 then
               (case sql_number ''where clause'' (round_double v) of
                  Inl msg \<Rightarrow> Inl msg
                | Inr r \<Rightarrow> Inr (first_row (variants_by_id T r)))
             else by_sku)"

definition variant_of :: "(string \<Rightarrow> jsnum) \<Rightarrow> tables \<Rightarrow> item \<Rightarrow> (int \<times> rat) option" where
  "variant_of sn T i = (case lookup_of sn T i of Inl msg \<Rightarrow> None | Inr r \<Rightarrow> r)"

text \<open>An item resolves when it is an object whose lookup finds a row.\<close>

definition resolves :: "(string \<Rightarrow> jsnum) \<Rightarrow> tables \<Rightarrow> item option \<Rightarrow> bool" where
  "resolves sn T it \<longleftrightarrow> (case it of None \<Rightarrow> False | Some i \<Rightarrow> variant_of sn T i \<noteq> None)"

subsection \<open>Notions used to state what a successful checkout did\<close>

text \<open>An entry of \<open>resolved\<close> made from an item, and an order item row made from an entry.\<close>

definition resolved_from ::
  "(string \<Rightarrow> jsnum) \<Rightarrow> tables \<Rightarrow> item option \<Rightarrow> resolved_item \<Rightarrow> bool" where
  "resolved_from sn T it r \<longleftrightarrow>
     (\<exists>i rid p. it = Some i \<and> variant_of sn T i = Some (rid, p) \<and>
        r = \<lparr>r_variantId = rid, r_qty = coerce_qty sn i, r_unit = round_double p\<rparr>)"

definition row_of :: "int \<Rightarrow> resolved_item \<Rightarrow> order_item_row \<Rightarrow> bool" where
  "row_of oid r row \<longleftrightarrow>
     oi_order_id row = oid \<and> oi_product_variant_id row = r_variantId r \<and>
     r_qty r = Fin (oi_quantity row) \<and> r_unit r = Fin (oi_unit_price row)"

text \<open>The subtotal accumulated by the loop, starting from \<open>a\<close>.\<close>

definition line_sum :: "jsnum \<Rightarrow> resolved_item list \<Rightarrow> jsnum" where
  "line_sum a rs = foldl (\<lambda>x r. js_add x (js_mul (r_qty r) (r_unit r))) a rs"

text \<open>The order item row written for an item of the request.\<close>

definition item_row ::
  "(string \<Rightarrow> jsnum) \<Rightarrow> tables \<Rightarrow> int \<Rightarrow> item option \<Rightarrow> order_item_row \<Rightarrow> bool" where
  "item_row sn T oid it row \<longleftrightarrow>
     (\<exists>i rid p. it = Some i \<and> variant_of sn T i = Some (rid, p) \<and>
        oi_order_id row = oid \<and> oi_product_variant_id row = rid \<and>
        round_double p = Fin (oi_unit_price row) \<and> coerce_qty sn i = Fin (oi_quantity row))"

subsection \<open>The subtotal, computed from the request and the tables\<close>

text \<open>
  The amount of one line: the quantity as the handler coerces it, times the price of the
  variant that the item resolves to on tables \<open>T\<close>, read as a double; and the sum of the
  lines, taken in the order of the items, every product and every sum being rounded to a
  double. An item that does not resolve has no amount.
\<close>

definition line_amount :: "(string \<Rightarrow> jsnum) \<Rightarrow> tables \<Rightarrow> item option \<Rightarrow> jsnum" where
  "line_amount sn T it =
     (case it of
        None \<Rightarrow> NaN
      | Some i \<Rightarrow>
          (case variant_of sn T i of
             None \<Rightarrow> NaN
           | Some (rid, p) \<Rightarrow> js_mul (coerce_qty sn i) (round_double p)))"

definition sum_of_lines :: "(string \<Rightarrow> jsnum) \<Rightarrow> tables \<Rightarrow> item option list \<Rightarrow> jsnum" where
  "sum_of_lines sn T its = foldl (\<lambda>a it. js_add a (line_amount sn T it)) (Fin 0) its"

text \<open>The same sum in exact arithmetic, for quantities and prices that are numbers.\<close>

fun exact_sum :: "(rat \<times> rat) list \<Rightarrow> rat" where
  "exact_sum [] = 0"
| "exact_sum ((q, p) # ls) = q * p + exact_sum ls"

subsection \<open>The coupon rule in the words of the specification\<close>

text \<open>
  The coupon row of a code is the first row of the table with that code. The conditions
  are those of the specification, read on the row: it is active, it has no expiry or one
  after now, and the subtotal is at least its minimum. The amount is the percentage of the
  subtotal, in cents rounded by \<open>Math.round\<close>, or the value; every operation is one on
  doubles. The rule gives the amount, clamped to the subtotal, when the row exists and the
  conditions hold, and zero otherwise.
\<close>

definition coupon_row_of :: "tables \<Rightarrow> string \<Rightarrow> coupon_row option" where
  "coupon_row_of T code = first_row (filter (\<lambda>c. c_code c = code) (coupons T))"

definition coupon_conditions :: "nat \<Rightarrow> coupon_row \<Rightarrow> jsnum \<Rightarrow> bool" where
  "coupon_conditions now c subtotal \<longleftrightarrow>
     c_is_active c \<and> (case c_expires_at c of None \<Rightarrow> True | Some e \<Rightarrow> now < e) \<and>
     js_ge subtotal (round_double (c_min_subtotal c))"

definition percent_of :: "jsnum \<Rightarrow> jsnum \<Rightarrow> jsnum" where
  "percent_of subtotal v =
     js_div (js_round (js_mul (js_mul subtotal (js_div v (Fin 100))) (Fin 100))) (Fin 100)"

definition coupon_amount :: "coupon_row \<Rightarrow> jsnum \<Rightarrow> jsnum" where
  "coupon_amount c subtotal =
     (if c_discount_type c = ''percent'' then percent_of subtotal (round_double (c_value c))
      else round_double (c_value c))"

definition discount_rule :: "nat \<Rightarrow> coupon_row option \<Rightarrow> jsnum \<Rightarrow> jsnum" where
  "discount_rule now c subtotal =
     (case c of
        None \<Rightarrow> Fin 0
      | Some c0 \<Rightarrow>
          if coupon_conditions now c0 subtotal then js_min (coupon_amount c0 subtotal) subtotal
          else Fin 0)"

text \<open>Rounding to two decimal places in exact arithmetic, a tie going up.\<close>

definition round2 :: "rat \<Rightarrow> rat" where
  "round2 x = of_int \<lfloor>x * 100 + 1 / 2\<rfloor> / 100"

text \<open>A number that is not below zero: \<open>NaN\<close>, the positive infinity, or a finite one.\<close>

fun not_negative :: "jsnum \<Rightarrow> bool" where
  "not_negative (Fin r) = (0 \<le> r)"
| "not_negative NInf = False"
| "not_negative _ = True"

subsection \<open>A shop to run the handler on\<close>

definition shop :: tables where
  "shop =
     \<lparr>users =
        [\<lparr>u_id = 1, u_first_name = ''Ann'', u_last_name = ''Lee'', u_email = ''ann@x.org'',
          u_phone = ''111'', u_password_hash = ''h''\<rparr>],
      products = [\<lparr>p_id = 1, p_sku = ''ABC''\<rparr>],
      product_variants =
        [\<lparr>v_id = 1, v_product_id = 1, v_grams = 250, v_price = 25\<rparr>,
         \<lparr>v_id = 2, v_product_id = 1, v_grams = 500, v_price = 45\<rparr>,
         \<lparr>v_id = 3, v_product_id = 1, v_grams = 10, v_price = 3 / 10\<rparr>],
      coupons =
        [\<lparr>c_code = ''SAVE10'', c_discount_type = ''percent'', c_value = 10, c_min_subtotal = 0,
          c_is_active = True, c_expires_at = None\<rparr>,
         \<lparr>c_code = ''MINUS5'', c_discount_type = ''fixed'', c_value = - 5, c_min_subtotal = 0,
          c_is_active = True, c_expires_at = None\<rparr>,
         \<lparr>c_code = ''ONE'', c_discount_type = ''percent'', c_value = 1, c_min_subtotal = 0,
          c_is_active = True, c_expires_at = None\<rparr>,
         \<lparr>c_code = ''OLD'', c_discount_type = ''percent'', c_value = 50, c_min_subtotal = 0,
          c_is_active = True, c_expires_at = Some 50\<rparr>,
         \<lparr>c_code = ''SAVE75'', c_discount_type = ''percent'', c_value = 75, c_min_subtotal = 0,
          c_is_active = True, c_expires_at = None\<rparr>],
      orders = [], order_items = []\<rparr>"

definition w0 :: world where
  "w0 =
     \<lparr>committed = shop, conn_view = shop, next_user_id = 2, next_order_id = 1,
      next_order_item_id = 1, clock = 100, faults = [], log = []\<rparr>"

text \<open>
  The only string that the examples give for a quantity is \<open>abc\<close>, which \<open>Number\<close> reads as
  \<open>NaN\<close>.
\<close>

definition sn0 :: "string \<Rightarrow> jsnum" where
  "sn0 s = NaN"

definition by_id :: "rat \<Rightarrow> jsval \<Rightarrow> item option" where
  "by_id v q = Some \<lparr>variantId = Some v, productSku = None, grams = JUndefined, qty = q\<rparr>"

definition by_sku :: "string \<Rightarrow> rat \<Rightarrow> jsval \<Rightarrow> item option" where
  "by_sku s g q = Some \<lparr>variantId = None, productSku = Some s, grams = JNum g, qty = q\<rparr>"

definition request ::
  "string option \<Rightarrow> string option \<Rightarrow> item option list \<Rightarrow> string option \<Rightarrow> body" where
  "request email phone its couponCode =
     \<lparr>b_email = email, b_phone = phone, b_items = ItemsArray its, b_couponCode = couponCode,
      b_sessionId = Some ''s1''\<rparr>"

text \<open>A new customer orders one variant that exists and one SKU and weight that do not.\<close>

definition req_bob :: body where
  "req_bob =
     request (Some ''bob@x.org'') (Some ''222'') [by_id 1 (JNum 1), by_sku ''ABC'' 999 (JNum 1)] None"

text \<open>A known customer, with another phone number than the stored one, and a coupon.\<close>

definition req_ann :: body where
  "req_ann = request (Some ''ann@x.org'') (Some ''999'') [by_id 2 (JNum 1)] (Some ''SAVE10'')"

text \<open>Two and a half packs of variant 1; and two packs with a coupon whose value is negative.\<close>

definition req_half :: body where
  "req_half = request None None [by_id 1 (JNum (5 / 2))] None"

definition req_minus :: body where
  "req_minus = request None None [by_id 1 (JNum 2)] (Some ''MINUS5'')"

text \<open>
  One pack of the cheapest variant, at 0.30, with a coupon of one percent and with one of
  seventy-five percent; and two packs of variant 1 with a coupon that expired, and without.
\<close>

definition req_cheap :: body where
  "req_cheap = request None None [by_sku ''ABC'' 10 (JNum 1)] (Some ''ONE'')"

definition req_cheap75 :: body where
  "req_cheap75 = request None None [by_sku ''ABC'' 10 (JNum 1)] (Some ''SAVE75'')"

definition req_old :: body where
  "req_old = request None None [by_id 1 (JNum 2)] (Some ''OLD'')"

definition req_plain :: body where
  "req_plain = request None None [by_id 1 (JNum 2)] None"

text \<open>The scenario of the specification: two packs of variant 1 and ten percent off.\<close>

definition req_save :: body where
  "req_save = request None None [by_id 1 (JNum 2)] (Some ''SAVE10'')"

text \<open>A guest, and a new customer, each ordering one pack of variant 1.\<close>

definition req_guest :: body where
  "req_guest = request None (Some ''333'') [by_id 1 (JNum 1)] None"

definition req_new :: body where
  "req_new = request (Some ''bob@x.org'') (Some ''222'') [by_id 1 (JNum 1)] None"

text \<open>An item whose \<open>variantId\<close> is 0 and which also names a SKU and a weight.\<close>

definition zero_item :: item where
  "zero_item = \<lparr>variantId = Some 0, productSku = Some ''ABC'', grams = JNum 500, qty = JNum 1\<rparr>"

definition req_zero :: body where
  "req_zero = request None None [Some zero_item] None"

text \<open>
  Three packs of the variant at 0.30; one pack of variant 1 in the quantity \<open>abc\<close>; and a
  quantity of ten to the power 308 of variant 2.
\<close>

definition req_three :: body where
  "req_three = request None None [by_id 3 (JNum 3)] None"

definition req_abc :: body where
  "req_abc = request None None [by_id 1 (JStr ''abc'')] None"

definition req_huge :: body where
  "req_huge = request None None [by_id 2 (JNum (10 ^ 308))] None"

text \<open>An item that is \<open>null\<close> before, and after, an item whose variant does not exist.\<close>

definition req_null_first :: body where
  "req_null_first = request None None [None, by_id 99 (JNum 1)] None"

definition req_null_last :: body where
  "req_null_last = request None None [by_id 1 (JNum 1), by_id 99 (JNum 1), None] None"

text \<open>
  A store that loses the connection during the transaction: it answers four calls, then
  rejects the next one, and the rollback after it.
\<close>

definition w_lost :: world where
  "w_lost = w0\<lparr>faults := [None, None, None, None, Some ''Connection lost'', Some ''Connection closed'']\<rparr>"

text \<open>A store that rejects the third call: for a guest, the query of the coupon.\<close>

definition w_coupon_fault :: world where
  "w_coupon_fault = w0\<lparr>faults := [None, None, None, Some ''Deadlock found'']\<rparr>"

section \<open>Properties\<close>

subsection \<open>Every step of the transaction keeps the committed tables\<close>

lemmas store_defs =
  pop_fault_def log_event_def select_user_def insert_user_def select_variant_by_id_def
  select_variant_by_sku_def select_coupon_def insert_order_def insert_order_item_def
  sql_number_def

lemma grows_refl: "grows T T"
  by (simp add: grows_def)

lemma grows_trans: "grows A B \<Longrightarrow> grows B C \<Longrightarrow> grows A C"
  by (auto simp: grows_def)

lemma tx_frame_refl: "tx_frame w w"
  by (simp add: tx_frame_def grows_refl)

lemma tx_frame_trans: "tx_frame a b \<Longrightarrow> tx_frame b c \<Longrightarrow> tx_frame a c"
  unfolding tx_frame_def
  by (auto intro: grows_trans)

lemma select_user_frame: "select_user email w = (r, w') \<Longrightarrow> tx_frame w w'"
  by (auto simp: store_defs tx_frame_def grows_def split: list.splits option.splits)

lemma insert_user_frame: "insert_user email phone w = (r, w') \<Longrightarrow> tx_frame w w'"
  by (auto simp: store_defs tx_frame_def grows_def split: list.splits option.splits)

lemma select_variant_by_id_frame: "select_variant_by_id v w = (r, w') \<Longrightarrow> tx_frame w w'"
  by (auto simp: store_defs tx_frame_def grows_def split: list.splits option.splits jsnum.splits)

lemma select_variant_by_sku_frame: "select_variant_by_sku s g w = (r, w') \<Longrightarrow> tx_frame w w'"
  by (auto simp: store_defs tx_frame_def grows_def split: list.splits option.splits jsnum.splits)

lemma select_coupon_frame: "select_coupon c w = (r, w') \<Longrightarrow> tx_frame w w'"
  by (auto simp: store_defs tx_frame_def grows_def split: list.splits option.splits)

lemma insert_order_frame: "insert_order u s t st w = (r, w') \<Longrightarrow> tx_frame w w'"
  by (auto simp: store_defs tx_frame_def grows_def split: list.splits option.splits jsnum.splits)

lemma insert_order_item_frame: "insert_order_item oid v q u w = (r, w') \<Longrightarrow> tx_frame w w'"
  by (auto simp: store_defs tx_frame_def grows_def split: list.splits option.splits jsnum.splits)

lemma resolve_user_frame: "resolve_user email phone w = (r, w') \<Longrightarrow> tx_frame w w'"
  unfolding resolve_user_def
  by (auto split: if_splits prod.splits sum.splits list.splits
      intro: tx_frame_refl tx_frame_trans dest!: select_user_frame insert_user_frame)

lemma lookup_variant_frame: "lookup_variant sn it w = (r, w') \<Longrightarrow> tx_frame w w'"
  unfolding lookup_variant_def Let_def
  by (auto split: if_splits prod.splits sum.splits option.splits
      dest: select_variant_by_id_frame select_variant_by_sku_frame)

lemma resolve_items_frame:
  "resolve_items sn its resolved subtotal w = (r, w') \<Longrightarrow> tx_frame w w'"
proof (induction its arbitrary: resolved subtotal w)
  case Nil
  then show ?case by (simp add: tx_frame_refl)
next
  case (Cons it its)
  show ?case
  proof (cases it)
    case None
    with Cons.prems show ?thesis by (simp add: tx_frame_refl)
  next
    case (Some i)
    obtain x w1 where l: "lookup_variant sn i w = (x, w1)" by (cases "lookup_variant sn i w")
    then have f: "tx_frame w w1" by (rule lookup_variant_frame)
    show ?thesis
    proof (cases x)
      case (Inl e)
      with Cons.prems Some l f show ?thesis by simp
    next
      case (Inr row)
      show ?thesis
      proof (cases row)
        case None
        with Cons.prems Some l f Inr show ?thesis by simp
      next
        case (Some p)
        obtain rid rprice where p: "p = (rid, rprice)" by (cases p)
        from Cons.prems \<open>it = Some i\<close> l Inr Some p
        have "tx_frame w1 w'"
          by (auto simp: Let_def intro: Cons.IH)
        with f show ?thesis by (rule tx_frame_trans)
      qed
    qed
  qed
qed

lemma apply_coupon_frame: "apply_coupon c s w = (r, w') \<Longrightarrow> tx_frame w w'"
  unfolding apply_coupon_def
  by (auto split: if_splits prod.splits sum.splits intro: tx_frame_refl dest: select_coupon_frame)

lemma insert_items_frame: "insert_items oid rs w = (r, w') \<Longrightarrow> tx_frame w w'"
proof (induction rs arbitrary: w)
  case Nil
  then show ?case by (simp add: tx_frame_refl)
next
  case (Cons a rs)
  obtain x w1 where l: "insert_order_item oid (r_variantId a) (r_qty a) (r_unit a) w = (x, w1)"
    by (cases "insert_order_item oid (r_variantId a) (r_qty a) (r_unit a) w")
  then have f: "tx_frame w w1" by (rule insert_order_item_frame)
  show ?case
  proof (cases x)
    case (Inl e)
    with Cons.prems l f show ?thesis by simp
  next
    case (Inr u)
    with Cons.prems l have "tx_frame w1 w'" by (auto intro: Cons.IH)
    with f show ?thesis by (rule tx_frame_trans)
  qed
qed

lemma tx_frame_pre_commit: "tx_frame w w' \<Longrightarrow> pre_commit w w'"
  by (auto simp: tx_frame_def pre_commit_def)

lemma pre_commit_trans: "pre_commit a b \<Longrightarrow> pre_commit b c \<Longrightarrow> pre_commit a c"
  by (auto simp: pre_commit_def)

lemma beginTransaction_pre_commit: "beginTransaction w = (r, w') \<Longrightarrow> pre_commit w w'"
  by (auto simp: beginTransaction_def pop_fault_def log_event_def pre_commit_def
      split: list.splits option.splits)

lemma beginTransaction_Inr:
  "beginTransaction w = (Inr u, w') \<Longrightarrow>
     conn_view w' = committed w \<and> committed w' = committed w \<and> clock w' = clock w \<and>
     next_user_id w' = next_user_id w \<and> next_order_id w' = next_order_id w \<and>
     next_order_item_id w' = next_order_item_id w \<and> log w' = log w @ [Begin]"
  by (auto simp: beginTransaction_def pop_fault_def log_event_def
      split: list.splits option.splits)

lemma commit_Inl: "commit w = (Inl e, w') \<Longrightarrow> pre_commit w w'"
  by (auto simp: commit_def pop_fault_def log_event_def pre_commit_def
      split: list.splits option.splits)

lemma commit_Inr:
  "commit w = (Inr u, w') \<Longrightarrow>
     committed w' = conn_view w \<and> conn_view w' = conn_view w \<and> log w' = log w @ [Commit]"
  by (auto simp: commit_def pop_fault_def log_event_def split: list.splits option.splits)

lemma checkout_try_cases:
  assumes "checkout_try sn email phone its couponCode sessionId w = (r, w')"
  obtains (fail) e where "r = Inl e" "pre_commit w w'"
  | (ok) w1 w2 w3 w4 w5 w6 userId resolved subtotal discount orderId where
      "beginTransaction w = (Inr (), w1)"
      "resolve_user email phone w1 = (Inr userId, w2)"
      "resolve_items sn its [] (Fin 0) w2 = (Inr (resolved, subtotal), w3)"
      "apply_coupon couponCode subtotal w3 = (Inr discount, w4)"
      "insert_order userId sessionId (js_max (Fin 0) (js_sub subtotal discount)) ''created'' w4
         = (Inr orderId, w5)"
      "insert_items orderId resolved w5 = (Inr (), w6)"
      "commit w6 = (Inr (), w')"
      "pre_commit w w6" "tx_frame w1 w6"
      "r = Inr (Ok_body orderId subtotal discount (js_max (Fin 0) (js_sub subtotal discount)))"
proof -
  obtain r1 w1 where s1: "beginTransaction w = (r1, w1)" by (cases "beginTransaction w")
  then have f1: "pre_commit w w1" by (rule beginTransaction_pre_commit)
  show ?thesis
  proof (cases r1)
    case (Inl e)
    with assms s1 f1 fail[of e] show ?thesis by (simp add: checkout_try_def)
  next
    case r1: (Inr u1)
    obtain r2 w2 where s2: "resolve_user email phone w1 = (r2, w2)"
      by (cases "resolve_user email phone w1")
    then have g2: "tx_frame w1 w2" by (rule resolve_user_frame)
    with f1 have f2: "pre_commit w w2" by (blast intro: pre_commit_trans tx_frame_pre_commit)
    show ?thesis
    proof (cases r2)
      case (Inl e)
      with assms s1 r1 s2 f2 fail[of e] show ?thesis by (simp add: checkout_try_def)
    next
      case r2: (Inr userId)
      obtain r3 w3 where s3: "resolve_items sn its [] (Fin 0) w2 = (r3, w3)"
        by (cases "resolve_items sn its [] (Fin 0) w2")
      then have t3: "tx_frame w2 w3" by (rule resolve_items_frame)
      with g2 have g3: "tx_frame w1 w3" by (blast intro: tx_frame_trans)
      from f2 t3 have f3: "pre_commit w w3" by (blast intro: pre_commit_trans tx_frame_pre_commit)
      show ?thesis
      proof (cases r3)
        case (Inl e)
        with assms s1 r1 s2 r2 s3 f3 fail[of e] show ?thesis by (simp add: checkout_try_def)
      next
        case r3: (Inr p)
        obtain resolved subtotal where p: "p = (resolved, subtotal)" by (cases p)
        obtain r4 w4 where s4: "apply_coupon couponCode subtotal w3 = (r4, w4)"
          by (cases "apply_coupon couponCode subtotal w3")
        then have t4: "tx_frame w3 w4" by (rule apply_coupon_frame)
        with g3 have g4: "tx_frame w1 w4" by (blast intro: tx_frame_trans)
        from f3 t4 have f4: "pre_commit w w4" by (blast intro: pre_commit_trans tx_frame_pre_commit)
        show ?thesis
        proof (cases r4)
          case (Inl e)
          with assms s1 r1 s2 r2 s3 r3 p s4 f4 fail[of e] show ?thesis
            by (simp add: checkout_try_def)
        next
          case r4: (Inr discount)
          let ?tot = "js_max (Fin 0) (js_sub subtotal discount)"
          obtain r5 w5 where s5: "insert_order userId sessionId ?tot ''created'' w4 = (r5, w5)"
            by (cases "insert_order userId sessionId ?tot ''created'' w4")
          then have t5: "tx_frame w4 w5" by (rule insert_order_frame)
          with g4 have g5: "tx_frame w1 w5" by (blast intro: tx_frame_trans)
          from f4 t5 have f5: "pre_commit w w5"
            by (blast intro: pre_commit_trans tx_frame_pre_commit)
          show ?thesis
          proof (cases r5)
            case (Inl e)
            with assms s1 r1 s2 r2 s3 r3 p s4 r4 s5 f5 fail[of e] show ?thesis
              by (simp add: checkout_try_def Let_def)
          next
            case r5: (Inr orderId)
            obtain r6 w6 where s6: "insert_items orderId resolved w5 = (r6, w6)"
              by (cases "insert_items orderId resolved w5")
            then have t6: "tx_frame w5 w6" by (rule insert_items_frame)
            with g5 have g6: "tx_frame w1 w6" by (blast intro: tx_frame_trans)
            from f5 t6 have f6: "pre_commit w w6"
              by (blast intro: pre_commit_trans tx_frame_pre_commit)
            show ?thesis
            proof (cases r6)
              case (Inl e)
              with assms s1 r1 s2 r2 s3 r3 p s4 r4 s5 r5 s6 f6 fail[of e] show ?thesis
                by (simp add: checkout_try_def Let_def)
            next
              case r6: (Inr u6)
              obtain r7 w7 where s7: "commit w6 = (r7, w7)" by (cases "commit w6")
              show ?thesis
              proof (cases r7)
                case (Inl e)
                from s7 Inl have "pre_commit w6 w7" by (simp add: commit_Inl)
                with f6 have "pre_commit w w7" by (rule pre_commit_trans)
                with assms s1 r1 s2 r2 s3 r3 p s4 r4 s5 r5 s6 r6 s7 Inl fail[of e]
                show ?thesis by (simp add: checkout_try_def Let_def)
              next
                case r7: (Inr u7)
                with assms s1 r1 s2 r2 s3 r3 p s4 r4 s5 r5 s6 r6 s7 f6 g6
                  ok[of w1 userId w2 resolved subtotal w3 discount w4 orderId w5 w6]
                show ?thesis by (simp add: checkout_try_def Let_def)
              qed
            qed
          qed
        qed
      qed
    qed
  qed
qed

subsection \<open>Validation\<close>

text \<open>
  Claim C8. When the request has no body, or its \<open>items\<close> field is missing, is not a list or
  is the empty list, the handler answers 400 with the error \<open>Cart is empty\<close> and the world
  is exactly as before: no connection was acquired, no store call was made (the log and the
  schedule of faults are untouched) and no table changed.
\<close>

theorem empty_cart_is_rejected_locally:
  assumes "req_body = None \<or>
           (\<exists>b. req_body = Some b \<and> b_items b \<in> {ItemsUndefined, ItemsNotArray, ItemsArray []})"
  shows "checkout sn req_body w = (Response 400 (Error_body ''Cart is empty''), w)"
  using assms
  by (auto simp: checkout_def empty_body_def items_or_default_def cart_is_empty_def Let_def)

theorem empty_cart_is_rejected_locally_witness:
  "b_items (request None None [] (Some ''SAVE10''))
     \<in> {ItemsUndefined, ItemsNotArray, ItemsArray []} \<and>
   checkout sn0 (Some (request None None [] (Some ''SAVE10''))) w0
     = (Response 400 (Error_body ''Cart is empty''), w0)"
  using empty_cart_is_rejected_locally [of "Some (request None None [] (Some ''SAVE10''))" sn0 w0]
  by (simp add: request_def)

subsection \<open>The handler around the transaction\<close>

lemma getConnection_Inr:
  "getConnection w = (Inr u, w1) \<Longrightarrow>
     committed w1 = committed w \<and> conn_view w1 = conn_view w \<and> clock w1 = clock w \<and>
     next_user_id w1 = next_user_id w \<and> next_order_id w1 = next_order_id w \<and>
     next_order_item_id w1 = next_order_item_id w \<and> log w1 = log w @ [Acquire]"
  by (auto simp: getConnection_def pop_fault_def log_event_def split: list.splits option.splits)

lemma getConnection_committed: "getConnection w = (g, w1) \<Longrightarrow> committed w1 = committed w"
  by (auto simp: getConnection_def pop_fault_def log_event_def split: list.splits option.splits)

lemma checkout_validated:
  assumes "b_items b = ItemsArray its" and "its \<noteq> []" and "getConnection w = (Inr (), w1)"
  shows "checkout sn (Some b) w =
     (case checkout_try sn (or_empty (b_email b)) (or_empty (b_phone b)) its
             (or_empty (b_couponCode b)) (or_empty (b_sessionId b)) w1 of
        (Inr ok, w2) \<Rightarrow> (Response 200 ok, release w2)
      | (Inl e, w2) \<Rightarrow> catch_and_finally e w2)"
  using assms by (cases its) (simp_all add: checkout_def items_or_default_def Let_def)

text \<open>
  The \<open>catch\<close> and the \<open>finally\<close>: either the rollback is carried out, and the answer is 500
  with the message of the exception, or the rollback is rejected, and there is no answer. The
  connection is released in both cases, and the committed tables stay.
\<close>

lemma catch_and_finally_cases:
  assumes "catch_and_finally e w = (out, w')"
  obtains (rolled_back) "out = Response 500 (Error_body e)" "committed w' = committed w"
      "conn_view w' = committed w" "log w' = log w @ [Rollback, Release]"
  | (rejected) e2 where "out = Unhandled e2" "committed w' = committed w"
      "conn_view w' = conn_view w" "log w' = log w @ [Rejected, Release]"
  using assms
  unfolding catch_and_finally_def rollback_def pop_fault_def release_def log_event_def
  by (auto split: list.splits option.splits)



subsection \<open>An exception in the transaction\<close>

text \<open>
  When the body of the \<open>try\<close> raises \<open>e\<close> and the store carries out the rollback, the handler
  answers 500 with the message \<open>e\<close>, the committed tables are what they were before the
  request, and the connection has no uncommitted write left.
\<close>

lemma exception_with_rollback:
  assumes "b_items b = ItemsArray its" and "its \<noteq> []"
    and "getConnection w = (Inr (), w1)"
    and "checkout_try sn (or_empty (b_email b)) (or_empty (b_phone b)) its
           (or_empty (b_couponCode b)) (or_empty (b_sessionId b)) w1 = (Inl e, w2)"
    and "rollback w2 = (Inr (), w3)"
  shows "checkout sn (Some b) w = (Response 500 (Error_body e), release w3) \<and>
         committed (release w3) = committed w \<and> conn_view (release w3) = committed w"
proof -
  have c: "checkout sn (Some b) w = (Response 500 (Error_body e), release w3)"
    using assms by (simp add: checkout_validated catch_and_finally_def)
  from assms(4) have "committed w2 = committed w1"
    by (cases rule: checkout_try_cases) (auto simp: pre_commit_def)
  moreover from assms(3) have "committed w1 = committed w"
    by (simp add: getConnection_Inr)
  moreover from assms(5) have "committed w3 = committed w2" "conn_view w3 = committed w2"
    by (auto simp: rollback_def pop_fault_def log_event_def split: list.splits option.splits)
  ultimately show ?thesis
    using c by (simp add: release_def log_event_def)
qed

text \<open>
  Claim C1 fails on the code when the store rejects the rollback. A new customer orders one
  pack of variant 1; the store acquires the connection, begins the transaction, answers the
  query of the user and inserts the user, then loses the connection: it rejects the lookup
  of the variant, and the rollback that the \<open>catch\<close> awaits before it writes the response.
  The handler then writes no response at all, neither the 500 nor another one: its promise
  rejects with the error of the rollback. No rollback was carried out: the view of the
  connection still has the user row that the transaction inserted, uncommitted. The
  connection is released all the same, by the \<open>finally\<close>.
\<close>

theorem rejected_rollback_leaves_no_response:
  "fst (checkout sn0 (Some req_new) w_lost) = Unhandled ''Connection closed'' \<and>
   fst (checkout sn0 (Some req_new) w_lost) \<noteq> Response 500 (Error_body ''Connection lost'') \<and>
   log (snd (checkout sn0 (Some req_new) w_lost))
     = [Acquire, Begin, Select, Insert, Rejected, Rejected, Release] \<and>
   users (conn_view (snd (checkout sn0 (Some req_new) w_lost)))
     = users shop @ [new_user 2 ''bob@x.org'' ''222''] \<and>
   committed (snd (checkout sn0 (Some req_new) w_lost)) = shop"
proof -
  have f: "fst (checkout sn0 (Some req_new) w_lost) = Unhandled ''Connection closed''"
    by code_simp
  have l: "log (snd (checkout sn0 (Some req_new) w_lost))
             = [Acquire, Begin, Select, Insert, Rejected, Rejected, Release]"
    by code_simp
  have u: "users (conn_view (snd (checkout sn0 (Some req_new) w_lost)))
             = users shop @ [new_user 2 ''bob@x.org'' ''222'']"
    by code_simp
  have c: "committed (snd (checkout sn0 (Some req_new) w_lost)) = shop"
    by code_simp
  from f l u c show ?thesis by simp
qed

subsection \<open>The frame of a checkout\<close>

lemma checkout_cases:
  assumes "checkout sn req_body w = (out, w')"
  obtains (invalid) "w' = w" "out = Response 400 (Error_body cart_is_empty)"
  | (no_connection) e where "out = Unhandled e" "committed w' = committed w"
  | (failed) b its w1 e w2 where "req_body = Some b" "b_items b = ItemsArray its" "its \<noteq> []"
      "getConnection w = (Inr (), w1)"
      "checkout_try sn (or_empty (b_email b)) (or_empty (b_phone b)) its
         (or_empty (b_couponCode b)) (or_empty (b_sessionId b)) w1 = (Inl e, w2)"
      "catch_and_finally e w2 = (out, w')"
  | (succeeded) b its w1 rb w2 where "req_body = Some b" "b_items b = ItemsArray its" "its \<noteq> []"
      "getConnection w = (Inr (), w1)"
      "checkout_try sn (or_empty (b_email b)) (or_empty (b_phone b)) its
         (or_empty (b_couponCode b)) (or_empty (b_sessionId b)) w1 = (Inr rb, w2)"
      "out = Response 200 rb" "w' = release w2"
proof -
  define b where "b = (case req_body of None \<Rightarrow> empty_body | Some x \<Rightarrow> x)"
  show ?thesis
  proof (cases "\<exists>i rest. items_or_default (b_items b) = ItemsArray (i # rest)")
    case False
    then have "w' = w" "out = Response 400 (Error_body cart_is_empty)"
      using assms unfolding checkout_def Let_def b_def[symmetric]
      by (auto split: items_field.splits list.splits)
    then show ?thesis by (rule invalid)
  next
    case True
    then obtain i rest where its: "items_or_default (b_items b) = ItemsArray (i # rest)" by blast
    then have bi: "b_items b = ItemsArray (i # rest)"
      by (auto simp: items_or_default_def split: items_field.splits)
    then have rb: "req_body = Some b"
      by (cases req_body) (simp_all add: b_def empty_body_def)
    obtain g w1 where g: "getConnection w = (g, w1)" by (cases "getConnection w")
    show ?thesis
    proof (cases g)
      case (Inl e)
      with assms its g have "w' = w1" "out = Unhandled e"
        unfolding checkout_def Let_def b_def[symmetric] by simp_all
      with g show ?thesis using no_connection by (simp add: getConnection_committed)
    next
      case (Inr u)
      let ?t = "checkout_try sn (or_empty (b_email b)) (or_empty (b_phone b)) (i # rest)
                  (or_empty (b_couponCode b)) (or_empty (b_sessionId b)) w1"
      obtain r w2 where t: "?t = (r, w2)" by (cases ?t)
      show ?thesis
      proof (cases r)
        case (Inl e)
        with assms its g Inr t have "catch_and_finally e w2 = (out, w')"
          unfolding checkout_def Let_def b_def[symmetric] by simp
        with rb bi g Inr t Inl show ?thesis
          using failed[of b "i # rest" w1 e w2] by simp
      next
        case r: (Inr ok)
        with assms its g Inr t have "out = Response 200 ok" "w' = release w2"
          unfolding checkout_def Let_def b_def[symmetric] by simp_all
        with rb bi g Inr t r show ?thesis
          using succeeded[of b "i # rest" w1 ok w2] by simp
      qed
    qed
  qed
qed

lemma checkout_not_200:
  assumes "checkout sn req_body w = (out, w')" and "\<forall>rb. out \<noteq> Response 200 rb"
  shows "committed w' = committed w"
  using assms(1)
proof (cases rule: checkout_cases)
  case invalid
  then show ?thesis by simp
next
  case (no_connection e)
  then show ?thesis by simp
next
  case (failed b its w1 e w2)
  from failed(5) have "committed w2 = committed w1"
    by (cases rule: checkout_try_cases) (auto simp: pre_commit_def)
  moreover from failed(4) have "committed w1 = committed w" by (simp add: getConnection_Inr)
  moreover from failed(6) have "committed w' = committed w2"
    by (cases rule: catch_and_finally_cases) simp_all
  ultimately show ?thesis by simp
next
  case (succeeded b its w1 rb w2)
  with assms(2) show ?thesis by simp
qed

lemma checkout_grows: "checkout sn req_body w = (out, w') \<Longrightarrow> grows (committed w) (committed w')"
proof -
  assume c: "checkout sn req_body w = (out, w')"
  show ?thesis
  proof (cases "\<exists>rb. out = Response 200 rb")
    case False
    with c have "committed w' = committed w" by (simp add: checkout_not_200)
    then show ?thesis by (simp add: grows_refl)
  next
    case True
    from c show ?thesis
    proof (cases rule: checkout_cases)
      case invalid
      with True show ?thesis by simp
    next
      case (no_connection e)
      with True show ?thesis by simp
    next
      case (failed b its w1 e w2)
      from failed(6) True show ?thesis
        by (cases rule: catch_and_finally_cases) auto
    next
      case (succeeded b its w1 rb w2)
      from succeeded(5) show ?thesis
      proof (cases rule: checkout_try_cases)
        case (fail e)
        then show ?thesis by simp
      next
        case (ok v1 v2 v3 v4 v5 w6 userId resolved subtotal discount orderId)
        from ok have "committed w2 = conn_view w6" by (simp add: commit_Inr)
        moreover from ok have "conn_view v1 = committed w1" by (simp add: beginTransaction_Inr)
        moreover from ok have "grows (conn_view v1) (conn_view w6)" by (simp add: tx_frame_def)
        moreover from succeeded(4) have "committed w1 = committed w"
          by (simp add: getConnection_Inr)
        ultimately show ?thesis using succeeded(7) by (simp add: release_def log_event_def)
      qed
    qed
  qed
qed

text \<open>
  Claim C10. Whatever the request, the schedule of faults and the outcome, the committed
  tables after the handler are the committed tables before it with rows added at the end of
  users, orders and order items: the products, the variants and the coupons are the same, and
  every user, order and order item that was there is still there, unchanged. So a user found
  by email keeps the stored phone number, whatever phone the request carries.
\<close>

theorem checkout_only_appends_rows:
  "grows (committed w) (committed (snd (checkout sn req_body w)))"
  by (rule checkout_grows [of sn req_body w "fst (checkout sn req_body w)"]) simp

theorem checkout_only_appends_rows_witness:
  "grows shop (committed (snd (checkout sn0 (Some req_ann) w0))) \<and>
   users (committed (snd (checkout sn0 (Some req_ann) w0))) = users shop \<and>
   map u_phone (users (committed (snd (checkout sn0 (Some req_ann) w0)))) = [''111'']"
proof -
  have u: "users (committed (snd (checkout sn0 (Some req_ann) w0))) = users shop"
    by code_simp
  have p: "map u_phone (users shop) = [''111'']"
    by (simp add: shop_def)
  from checkout_only_appends_rows [of w0 sn0 "Some req_ann"] u p
  show ?thesis by (simp add: w0_def)
qed

subsection \<open>What each step returns when it returns normally\<close>

lemma same_tables_refl: "same_tables w w"
  by (simp add: same_tables_def)

lemma same_tables_trans: "same_tables a b \<Longrightarrow> same_tables b c \<Longrightarrow> same_tables a c"
  by (simp add: same_tables_def)

lemma select_user_result:
  "select_user email w = (r, w') \<Longrightarrow>
     same_tables w w' \<and> (\<forall>u. r = Inr u \<longrightarrow> u = users_by_email (conn_view w) email)"
  by (auto simp: store_defs same_tables_def split: list.splits option.splits)

lemma insert_user_Inr:
  "insert_user email phone w = (Inr i, w') \<Longrightarrow>
     i = next_user_id w \<and> committed w' = committed w \<and> clock w' = clock w \<and>
     next_order_id w' = next_order_id w \<and> next_order_item_id w' = next_order_item_id w \<and>
     conn_view w' = (conn_view w)
       \<lparr>users := users (conn_view w) @ [new_user (next_user_id w) email phone]\<rparr>"
  by (auto simp: store_defs split: list.splits option.splits)

lemma resolve_user_Inr:
  assumes "resolve_user email phone w = (Inr uid, w')"
  shows "committed w' = committed w \<and> clock w' = clock w \<and>
         next_order_id w' = next_order_id w \<and> next_order_item_id w' = next_order_item_id w \<and>
         (email = [] \<longrightarrow> uid = None \<and> w' = w) \<and>
         (email \<noteq> [] \<longrightarrow>
            (case users_by_email (conn_view w) email of
               i # rest \<Rightarrow> uid = Some i \<and> conn_view w' = conn_view w
             | [] \<Rightarrow> uid = Some (next_user_id w) \<and>
                 conn_view w' = (conn_view w)
                   \<lparr>users := users (conn_view w) @ [new_user (next_user_id w) email phone]\<rparr>))"
proof (cases "email = []")
  case True
  with assms show ?thesis by (simp add: resolve_user_def)
next
  case False
  obtain x w1 where s: "select_user email w = (x, w1)" by (cases "select_user email w")
  with assms False obtain u where x: "x = Inr u"
    by (cases x) (simp_all add: resolve_user_def)
  from select_user_result[OF s] x
  have s1: "same_tables w w1" and u: "u = users_by_email (conn_view w) email" by simp_all
  show ?thesis
  proof (cases "users_by_email (conn_view w) email")
    case (Cons i rest)
    with assms False s x u have "uid = Some i" "w' = w1" by (simp_all add: resolve_user_def)
    with s1 Cons False show ?thesis by (simp add: same_tables_def)
  next
    case e: Nil
    with u have Nil: "u = []" by simp
    obtain y w2 where ins: "insert_user email phone w1 = (y, w2)"
      by (cases "insert_user email phone w1")
    with assms False s x Nil obtain n where y: "y = Inr n"
      by (cases y) (simp_all add: resolve_user_def)
    with assms False s x Nil ins have r: "uid = Some n" "w' = w2"
      by (simp_all add: resolve_user_def)
    from insert_user_Inr[OF ins[unfolded y]] s1 r e False
    show ?thesis by (simp add: same_tables_def)
  qed
qed

lemma select_variant_by_id_result:
  "select_variant_by_id v w = (r, w') \<Longrightarrow>
     same_tables w w' \<and>
     (\<forall>rows. r = Inr rows \<longrightarrow> (\<exists>x. v = Fin x \<and> rows = variants_by_id (conn_view w) x))"
  by (auto simp: store_defs same_tables_def split: list.splits option.splits jsnum.splits)

lemma select_variant_by_sku_result:
  "select_variant_by_sku s g w = (r, w') \<Longrightarrow>
     same_tables w w' \<and>
     (\<forall>rows. r = Inr rows \<longrightarrow> (\<exists>x. g = Fin x \<and> rows = variants_by_sku (conn_view w) s x))"
  by (auto simp: store_defs same_tables_def split: list.splits option.splits jsnum.splits)

lemma lookup_variant_same: "lookup_variant sn it w = (r, w') \<Longrightarrow> same_tables w w'"
  unfolding lookup_variant_def Let_def
  by (auto split: if_splits prod.splits sum.splits option.splits
      dest!: select_variant_by_id_result select_variant_by_sku_result)

lemma lookup_variant_Inr:
  "lookup_variant sn it w = (Inr row, w') \<Longrightarrow> lookup_of sn (conn_view w) it = Inr row"
  unfolding lookup_variant_def lookup_of_def Let_def
  by (auto simp: sql_number_def split: if_splits prod.splits sum.splits option.splits
      dest!: select_variant_by_id_result select_variant_by_sku_result)

lemma resolve_items_Inr:
  "resolve_items sn its res sub w = (Inr (res', sub'), w') \<Longrightarrow>
     same_tables w w' \<and>
     (\<exists>new. res' = res @ new \<and> list_all2 (resolved_from sn (conn_view w)) its new \<and>
        sub' = line_sum sub new)"
proof (induction its arbitrary: res sub w)
  case Nil
  then show ?case by (simp add: same_tables_refl line_sum_def)
next
  case (Cons it its)
  from Cons.prems obtain i where it: "it = Some i"
    by (cases it) simp_all
  obtain x w1 where l: "lookup_variant sn i w = (x, w1)" by (cases "lookup_variant sn i w")
  from Cons.prems it l obtain rid p where x: "x = Inr (Some (rid, p))"
    by (cases x) (auto split: option.splits)
  from l x have s1: "same_tables w w1" and v: "variant_of sn (conn_view w) i = Some (rid, p)"
    using lookup_variant_same[of sn i w x w1] lookup_variant_Inr[of sn i w "Some (rid, p)" w1]
    by (simp_all add: variant_of_def)
  let ?r = "\<lparr>r_variantId = rid, r_qty = coerce_qty sn i, r_unit = round_double p\<rparr>"
  from Cons.prems it l x
  have rest: "resolve_items sn its (res @ [?r])
                (js_add sub (js_mul (coerce_qty sn i) (round_double p))) w1
                = (Inr (res', sub'), w')"
    by (simp add: Let_def)
  from Cons.IH[OF rest] obtain new where
    n: "same_tables w1 w'" "res' = (res @ [?r]) @ new"
       "list_all2 (resolved_from sn (conn_view w1)) its new"
       "sub' = line_sum (js_add sub (js_mul (coerce_qty sn i) (round_double p))) new"
    by blast
  from s1 have cv: "conn_view w1 = conn_view w" by (simp add: same_tables_def)
  have "resolved_from sn (conn_view w) it ?r"
    using it v by (simp add: resolved_from_def)
  with n cv have "res' = res @ (?r # new) \<and>
      list_all2 (resolved_from sn (conn_view w)) (it # its) (?r # new) \<and>
      sub' = line_sum sub (?r # new)"
    by (simp add: line_sum_def)
  moreover from s1 n(1) have "same_tables w w'" by (rule same_tables_trans)
  ultimately show ?case by blast
qed

lemma apply_coupon_Inr:
  "apply_coupon couponCode sub w = (Inr d, w') \<Longrightarrow>
     same_tables w w' \<and>
     d = (if couponCode = [] then Fin 0
          else coupon_discount (coupons_by_code (conn_view w) (clock w) couponCode) sub)"
  unfolding apply_coupon_def
  by (auto simp: store_defs same_tables_def split: if_splits list.splits option.splits)

lemma insert_order_Inr:
  "insert_order uid sid tot st w = (Inr oid, w') \<Longrightarrow>
     oid = next_order_id w \<and> committed w' = committed w \<and> clock w' = clock w \<and>
     next_order_item_id w' = next_order_item_id w \<and>
     (\<exists>t. tot = Fin t \<and>
        conn_view w' = (conn_view w)
          \<lparr>orders := orders (conn_view w) @ [new_order (next_order_id w) uid sid t st]\<rparr>)"
  by (auto simp: store_defs split: list.splits option.splits jsnum.splits)

lemma insert_order_item_Inr:
  "insert_order_item oid vid q u w = (Inr x, w') \<Longrightarrow>
     committed w' = committed w \<and>
     (\<exists>qr ur. q = Fin qr \<and> u = Fin ur \<and>
        conn_view w' = (conn_view w)
          \<lparr>order_items := order_items (conn_view w)
             @ [new_order_item (next_order_item_id w) oid vid qr ur]\<rparr>)"
  by (auto simp: store_defs split: list.splits option.splits jsnum.splits sum.splits)

lemma insert_items_Inr:
  "insert_items oid rs w = (Inr x, w') \<Longrightarrow>
     committed w' = committed w \<and>
     (\<exists>rows. conn_view w' = (conn_view w)\<lparr>order_items := order_items (conn_view w) @ rows\<rparr> \<and>
        list_all2 (row_of oid) rs rows)"
proof (induction rs arbitrary: w)
  case Nil
  then show ?case by simp
next
  case (Cons r rs)
  obtain y w1 where l: "insert_order_item oid (r_variantId r) (r_qty r) (r_unit r) w = (y, w1)"
    by (cases "insert_order_item oid (r_variantId r) (r_qty r) (r_unit r) w")
  with Cons.prems obtain u where y: "y = Inr u" by (cases y) simp_all
  from insert_order_item_Inr[OF l[unfolded y]] obtain qr ur where
    a: "committed w1 = committed w" "r_qty r = Fin qr" "r_unit r = Fin ur"
       "conn_view w1 = (conn_view w)
          \<lparr>order_items := order_items (conn_view w)
             @ [new_order_item (next_order_item_id w) oid (r_variantId r) qr ur]\<rparr>"
    by blast
  from Cons.prems l y have "insert_items oid rs w1 = (Inr x, w')" by simp
  from Cons.IH[OF this] obtain rows where
    b: "committed w' = committed w1"
       "conn_view w' = (conn_view w1)\<lparr>order_items := order_items (conn_view w1) @ rows\<rparr>"
       "list_all2 (row_of oid) rs rows"
    by blast
  let ?row = "new_order_item (next_order_item_id w) oid (r_variantId r) qr ur"
  have "row_of oid r ?row"
    using a by (simp add: row_of_def new_order_item_def)
  with a b have "conn_view w' = (conn_view w)
        \<lparr>order_items := order_items (conn_view w) @ (?row # rows)\<rparr> \<and>
      list_all2 (row_of oid) (r # rs) (?row # rows)"
    by simp
  with a b show ?case by (metis (no_types))
qed

lemma line_sum_lines:
  "list_all2 (resolved_from sn T) its rs \<Longrightarrow>
     line_sum a rs = foldl (\<lambda>a it. js_add a (line_amount sn T it)) a its"
  unfolding line_sum_def
proof (induction its rs arbitrary: a rule: list_all2_induct)
  case Nil
  then show ?case by simp
next
  case (Cons it its r rs)
  from Cons.hyps(1) have "js_mul (r_qty r) (r_unit r) = line_amount sn T it"
    by (auto simp: resolved_from_def line_amount_def)
  with Cons.IH show ?case by simp
qed

subsection \<open>What a successful transaction did\<close>

lemma variant_of_catalogue:
  "products T' = products T \<Longrightarrow> product_variants T' = product_variants T \<Longrightarrow>
     variant_of sn T' i = variant_of sn T i"
  by (simp add: variant_of_def lookup_of_def variants_by_id_def variants_by_sku_def Let_def
      split: sum.splits option.splits)

lemma sum_of_lines_catalogue:
  assumes "products T' = products T" and "product_variants T' = product_variants T"
  shows "sum_of_lines sn T' its = sum_of_lines sn T its"
proof -
  have "\<And>i. variant_of sn T' i = variant_of sn T i"
    by (rule variant_of_catalogue) (simp_all add: assms)
  then have "line_amount sn T' = line_amount sn T"
    by (auto simp: line_amount_def fun_eq_iff split: option.splits)
  then show ?thesis by (simp add: sum_of_lines_def)
qed

lemma checkout_try_Inr:
  assumes "checkout_try sn email phone its couponCode sessionId w = (Inr rb, w')"
  obtains sub disc t uid new_users rows where
    "rb = Ok_body (next_order_id w) sub disc (Fin t)"
    "Fin t = js_max (Fin 0) (js_sub sub disc)"
    "disc = (if couponCode = [] then Fin 0
             else coupon_discount (coupons_by_code (committed w) (clock w) couponCode) sub)"
    "committed w' = (committed w)
       \<lparr>users := users (committed w) @ new_users,
        orders := orders (committed w)
          @ [new_order (next_order_id w) uid sessionId t ''created''],
        order_items := order_items (committed w) @ rows\<rparr>"
    "email = [] \<longrightarrow> uid = None \<and> new_users = []"
    "email \<noteq> [] \<longrightarrow>
       (case users_by_email (committed w) email of
          i # rest \<Rightarrow> uid = Some i \<and> new_users = []
        | [] \<Rightarrow> uid = Some (next_user_id w) \<and>
            new_users = [new_user (next_user_id w) email phone])"
    "list_all2 (item_row sn (committed w) (next_order_id w)) its rows"
    "sub = sum_of_lines sn (committed w) its"
  using assms
proof (cases rule: checkout_try_cases)
  case (fail e)
  then show ?thesis by simp
next
  case (ok w1 w2 w3 w4 w5 w6 uid resolved subtotal discount orderId)
  from beginTransaction_Inr[OF ok(1)]
  have b: "conn_view w1 = committed w" "clock w1 = clock w" "next_user_id w1 = next_user_id w"
    "next_order_id w1 = next_order_id w"
    by simp_all
  define new_users where
    "new_users = (if email \<noteq> [] \<and> users_by_email (committed w) email = []
                  then [new_user (next_user_id w) email phone] else [])"
  from resolve_user_Inr[OF ok(2)] b
  have u: "clock w2 = clock w" "next_order_id w2 = next_order_id w"
    "conn_view w2 = (committed w)\<lparr>users := users (committed w) @ new_users\<rparr>"
    "email = [] \<longrightarrow> uid = None \<and> new_users = []"
    "email \<noteq> [] \<longrightarrow>
       (case users_by_email (committed w) email of
          i # rest \<Rightarrow> uid = Some i \<and> new_users = []
        | [] \<Rightarrow> uid = Some (next_user_id w) \<and>
            new_users = [new_user (next_user_id w) email phone])"
    by (auto simp: new_users_def split: list.splits)
  from resolve_items_Inr[OF ok(3)]
  have r: "same_tables w2 w3" "list_all2 (resolved_from sn (conn_view w2)) its resolved"
    "subtotal = line_sum (Fin 0) resolved"
    by auto
  from apply_coupon_Inr[OF ok(4)]
  have c: "same_tables w3 w4"
    "discount = (if couponCode = [] then Fin 0
                 else coupon_discount (coupons_by_code (conn_view w3) (clock w3) couponCode) subtotal)"
    by simp_all
  from insert_order_Inr[OF ok(5)] obtain t where
    o: "orderId = next_order_id w4" "js_max (Fin 0) (js_sub subtotal discount) = Fin t"
       "conn_view w5 = (conn_view w4)
          \<lparr>orders := orders (conn_view w4) @ [new_order (next_order_id w4) uid sessionId t ''created'']\<rparr>"
    by blast
  from insert_items_Inr[OF ok(6)] obtain rows where
    i: "conn_view w6 = (conn_view w5)\<lparr>order_items := order_items (conn_view w5) @ rows\<rparr>"
       "list_all2 (row_of orderId) resolved rows"
    by blast
  from commit_Inr[OF ok(7)] have cm: "committed w' = conn_view w6" by simp
  have "subtotal = sum_of_lines sn (conn_view w2) its"
    using line_sum_lines[OF r(2), of "Fin 0"] r(3) by (simp add: sum_of_lines_def)
  also have "\<dots> = sum_of_lines sn (committed w) its"
    by (rule sum_of_lines_catalogue) (simp_all add: u(3))
  finally have sub: "subtotal = sum_of_lines sn (committed w) its" .
  from r(1) c(1) have v34: "conn_view w4 = conn_view w2" "clock w3 = clock w2"
    "conn_view w3 = conn_view w2" "next_order_id w4 = next_order_id w2"
    by (simp_all add: same_tables_def)
  have oid: "orderId = next_order_id w" using o(1) v34 u by simp
  have 1: "rb = Ok_body (next_order_id w) subtotal discount (Fin t)"
    using ok(10) oid o(2) by simp
  have 2: "discount = (if couponCode = [] then Fin 0
              else coupon_discount (coupons_by_code (committed w) (clock w) couponCode) subtotal)"
    using c(2) v34 u by (simp add: coupons_by_code_def)
  have 3: "committed w' = (committed w)
       \<lparr>users := users (committed w) @ new_users,
        orders := orders (committed w)
          @ [new_order (next_order_id w) uid sessionId t ''created''],
        order_items := order_items (committed w) @ rows\<rparr>"
    using cm i(1) o(3) v34 u oid o(1) by simp
  have "\<And>it r row. resolved_from sn (conn_view w2) it r \<Longrightarrow> row_of orderId r row \<Longrightarrow>
          item_row sn (committed w) (next_order_id w) it row"
  proof -
    fix it r row
    assume a: "resolved_from sn (conn_view w2) it r" "row_of orderId r row"
    have "\<And>i. variant_of sn (conn_view w2) i = variant_of sn (committed w) i"
      by (rule variant_of_catalogue) (simp_all add: u(3))
    with a oid show "item_row sn (committed w) (next_order_id w) it row"
      by (auto simp: resolved_from_def row_of_def item_row_def)
  qed
  then have 6: "list_all2 (item_row sn (committed w) (next_order_id w)) its rows"
    using r(2) i(2) by (rule list_all2_trans)
  from 1 o(2)[symmetric] 2 3 u(4) u(5) 6 sub show ?thesis by (rule that)
qed

lemma checkout_success:
  assumes "checkout sn (Some b) w = (Response 200 rb, w')"
  obtains its sub disc t uid new_users rows where
    "b_items b = ItemsArray its" "its \<noteq> []"
    "rb = Ok_body (next_order_id w) sub disc (Fin t)"
    "Fin t = js_max (Fin 0) (js_sub sub disc)"
    "disc = (if or_empty (b_couponCode b) = [] then Fin 0
             else coupon_discount
                    (coupons_by_code (committed w) (clock w) (or_empty (b_couponCode b))) sub)"
    "committed w' = (committed w)
       \<lparr>users := users (committed w) @ new_users,
        orders := orders (committed w)
          @ [new_order (next_order_id w) uid (or_empty (b_sessionId b)) t ''created''],
        order_items := order_items (committed w) @ rows\<rparr>"
    "or_empty (b_email b) = [] \<longrightarrow> uid = None \<and> new_users = []"
    "or_empty (b_email b) \<noteq> [] \<longrightarrow>
       (case users_by_email (committed w) (or_empty (b_email b)) of
          i # rest \<Rightarrow> uid = Some i \<and> new_users = []
        | [] \<Rightarrow> uid = Some (next_user_id w) \<and>
            new_users = [new_user (next_user_id w) (or_empty (b_email b)) (or_empty (b_phone b))])"
    "list_all2 (item_row sn (committed w) (next_order_id w)) its rows"
    "sub = sum_of_lines sn (committed w) its"
  using assms
proof (cases rule: checkout_cases)
  case invalid
  then show ?thesis by simp
next
  case (no_connection e)
  then show ?thesis by simp
next
  case (failed b' its w1 e w2)
  from failed(6) show ?thesis
    by (cases rule: catch_and_finally_cases) simp_all
next
  case (succeeded b' its w1 rb' w2)
  then have b': "b' = b" and rb': "rb' = rb" by simp_all
  from getConnection_Inr[OF succeeded(4)]
  have g: "committed w1 = committed w" "clock w1 = clock w" "next_user_id w1 = next_user_id w"
    "next_order_id w1 = next_order_id w"
    by simp_all
  have c: "committed w' = committed w2"
    using succeeded(7) by (simp add: release_def log_event_def)
  from succeeded(5) show ?thesis
  proof (cases rule: checkout_try_Inr)
    case (1 sub disc t uid new_users rows)
    with \<open>b_items b' = ItemsArray its\<close> \<open>its \<noteq> []\<close> show ?thesis
      using that unfolding b' rb' g c by blast
  qed
qed

lemma list_all2_right:
  "list_all2 P xs ys \<Longrightarrow> (\<And>x y. P x y \<Longrightarrow> Q y) \<Longrightarrow> \<forall>y\<in>set ys. Q y"
  by (induction rule: list_all2_induct) auto

lemma first_row_in_set: "first_row xs = Some x \<Longrightarrow> x \<in> set xs"
  by (cases xs) (simp_all add: first_row_def)

lemma variant_of_in_table:
  "variant_of sn T i = Some (rid, p) \<Longrightarrow>
     \<exists>v\<in>set (product_variants T). v_id v = rid \<and> v_price v = p"
  unfolding variant_of_def lookup_of_def Let_def variants_by_id_def variants_by_sku_def
  by (auto split: option.splits if_splits sum.splits dest!: first_row_in_set in_set_takeD)

lemma js_max_0_nonneg: "Fin t = js_max (Fin 0) x \<Longrightarrow> 0 \<le> t"
  by (cases x) auto

subsection \<open>The order that a successful checkout writes\<close>

text \<open>
  Claim C5. When the handler answers 200, the body carries the order id, the subtotal, the
  discount and the total, and the total is \<open>Math.max(0, subtotal - discount)\<close> of the subtotal
  and the discount that are returned; it is a finite number and it is not negative. The
  committed orders are the old ones followed by exactly one new row: the generated id, the
  resolved user id (none for a guest, otherwise the id of the user with that email), the
  session id, that total, the status \<open>created\<close> and no payment reference. The committed order
  items are the old ones followed by one row for each item of the request, each carrying the
  generated order id.
\<close>

theorem successful_checkout_writes_one_order:
  assumes "checkout sn (Some b) w = (Response 200 rb, w')"
  shows "\<exists>its oid sub disc t uid rows.
           b_items b = ItemsArray its \<and>
           rb = Ok_body oid sub disc (Fin t) \<and> Fin t = js_max (Fin 0) (js_sub sub disc) \<and>
           0 \<le> t \<and>
           orders (committed w') = orders (committed w) @
             [\<lparr>o_id = oid, o_user_id = uid, o_session_id = or_empty (b_sessionId b),
               o_total_amount = t, o_status = ''created'', o_payment_reference = None\<rparr>] \<and>
           uid = (if or_empty (b_email b) = [] then None
                  else first_row (users_by_email (committed w') (or_empty (b_email b)))) \<and>
           order_items (committed w') = order_items (committed w) @ rows \<and>
           length rows = length its \<and> (\<forall>row\<in>set rows. oi_order_id row = oid)"
  using assms
proof (cases rule: checkout_success)
  case (1 its sub disc t uid new_users rows)
  let ?e = "or_empty (b_email b)"
  have usr: "users (committed w') = users (committed w) @ new_users"
    using 1(6) by simp
  have u: "uid = (if ?e = [] then None else first_row (users_by_email (committed w') ?e))"
  proof (cases "?e = []")
    case True
    with 1(7) show ?thesis by simp
  next
    case False
    show ?thesis
    proof (cases "users_by_email (committed w) ?e")
      case Nil
      with False 1(8) have "uid = Some (next_user_id w)"
        "new_users = [new_user (next_user_id w) ?e (or_empty (b_phone b))]"
        by simp_all
      with False Nil usr show ?thesis
        by (simp add: users_by_email_def first_row_def new_user_def)
    next
      case (Cons i rest)
      with False 1(8) have "uid = Some i" "new_users = []" by simp_all
      with False Cons usr show ?thesis
        by (simp add: users_by_email_def first_row_def)
    qed
  qed
  have o: "\<forall>row\<in>set rows. oi_order_id row = next_order_id w"
    using 1(9) by (rule list_all2_right) (auto simp: item_row_def)
  have l: "length rows = length its"
    using 1(9) by (simp add: list_all2_lengthD)
  have ord: "orders (committed w') = orders (committed w) @
      [\<lparr>o_id = next_order_id w, o_user_id = uid, o_session_id = or_empty (b_sessionId b),
        o_total_amount = t, o_status = ''created'', o_payment_reference = None\<rparr>]"
    and itm: "order_items (committed w') = order_items (committed w) @ rows"
    using 1(6) by (simp_all add: new_order_def)
  have t: "0 \<le> t" using 1(4) by (rule js_max_0_nonneg)
  from 1(1) 1(3) 1(4) ord u itm l o t show ?thesis by blast
qed

theorem successful_checkout_writes_one_order_witness:
  "checkout sn0 (Some req_ann) w0
     = (Response 200 (Ok_body 1 (Fin 45) (Fin (9 / 2)) (Fin (81 / 2))),
        snd (checkout sn0 (Some req_ann) w0)) \<and>
   orders (committed (snd (checkout sn0 (Some req_ann) w0)))
     = [\<lparr>o_id = 1, o_user_id = Some 1, o_session_id = ''s1'', o_total_amount = 81 / 2,
         o_status = ''created'', o_payment_reference = None\<rparr>] \<and>
   order_items (committed (snd (checkout sn0 (Some req_ann) w0)))
     = [\<lparr>oi_id = 1, oi_order_id = 1, oi_product_variant_id = 2, oi_quantity = 1,
         oi_unit_price = 45\<rparr>] \<and>
   (\<exists>its oid sub disc t uid rows.
      b_items req_ann = ItemsArray its \<and>
      Ok_body 1 (Fin 45) (Fin (9 / 2)) (Fin (81 / 2)) = Ok_body oid sub disc (Fin t) \<and>
      Fin t = js_max (Fin 0) (js_sub sub disc) \<and> 0 \<le> t \<and>
      orders (committed (snd (checkout sn0 (Some req_ann) w0))) = orders (committed w0) @
        [\<lparr>o_id = oid, o_user_id = uid, o_session_id = or_empty (b_sessionId req_ann),
          o_total_amount = t, o_status = ''created'', o_payment_reference = None\<rparr>] \<and>
      uid = (if or_empty (b_email req_ann) = [] then None
             else first_row (users_by_email (committed (snd (checkout sn0 (Some req_ann) w0)))
                    (or_empty (b_email req_ann)))) \<and>
      order_items (committed (snd (checkout sn0 (Some req_ann) w0)))
        = order_items (committed w0) @ rows \<and>
      length rows = length its \<and> (\<forall>row\<in>set rows. oi_order_id row = oid))"
proof -
  have f: "fst (checkout sn0 (Some req_ann) w0)
             = Response 200 (Ok_body 1 (Fin 45) (Fin (9 / 2)) (Fin (81 / 2)))"
    by code_simp
  then have c: "checkout sn0 (Some req_ann) w0
     = (Response 200 (Ok_body 1 (Fin 45) (Fin (9 / 2)) (Fin (81 / 2))),
        snd (checkout sn0 (Some req_ann) w0))"
    by (simp add: prod_eq_iff)
  have o: "orders (committed (snd (checkout sn0 (Some req_ann) w0)))
     = [\<lparr>o_id = 1, o_user_id = Some 1, o_session_id = ''s1'', o_total_amount = 81 / 2,
         o_status = ''created'', o_payment_reference = None\<rparr>]"
    by code_simp
  have i: "order_items (committed (snd (checkout sn0 (Some req_ann) w0)))
     = [\<lparr>oi_id = 1, oi_order_id = 1, oi_product_variant_id = 2, oi_quantity = 1,
         oi_unit_price = 45\<rparr>]"
    by code_simp
  from successful_checkout_writes_one_order [OF c] c o i
  show ?thesis by blast
qed

subsection \<open>The user of the order\<close>

text \<open>
  Claim C6. With \<open>email\<close> and \<open>phone\<close> as the handler reads them from the body:
  \<^item> when the email is empty, or a user with exactly that email is in the table, a checkout
    leaves the committed users as they were, whatever its outcome;
  \<^item> when the handler answers 200, exactly one order was added, and its user id is null for
    an empty email, the id of the first user with that email when there is one, and
    otherwise the generated id of the one user row that was added after the old ones, with
    empty first and last name, that email and phone, and an empty password hash;
  \<^item> the step itself (lines 90 to 101), whenever it returns: for an empty email the user id
    is null and nothing at all was done; for an email that is found, the id found is
    returned and the view is unchanged; otherwise the view has that one new user row more
    and its generated id is returned.
\<close>

theorem user_is_found_or_created:
  assumes "checkout sn (Some b) w = (out, w')"
    and "or_empty (b_email b) = email" and "or_empty (b_phone b) = phone"
  shows "(email = [] \<or> users_by_email (committed w) email \<noteq> [] \<longrightarrow>
            users (committed w') = users (committed w)) \<and>
         (\<forall>rb. out = Response 200 rb \<longrightarrow>
            (\<exists>ord. orders (committed w') = orders (committed w) @ [ord] \<and>
               (if email = [] then o_user_id ord = None
                else case users_by_email (committed w) email of
                       i # rest \<Rightarrow> o_user_id ord = Some i
                     | [] \<Rightarrow> o_user_id ord = Some (next_user_id w) \<and>
                         users (committed w') = users (committed w) @
                           [\<lparr>u_id = next_user_id w, u_first_name = [], u_last_name = [],
                             u_email = email, u_phone = phone, u_password_hash = []\<rparr>]))) \<and>
         (\<forall>w1 uid w2. resolve_user email phone w1 = (Inr uid, w2) \<longrightarrow>
            (if email = [] then uid = None \<and> w2 = w1
             else case users_by_email (conn_view w1) email of
                    i # rest \<Rightarrow> uid = Some i \<and> conn_view w2 = conn_view w1
                  | [] \<Rightarrow> uid = Some (next_user_id w1) \<and>
                      conn_view w2 = (conn_view w1)
                        \<lparr>users := users (conn_view w1) @
                           [\<lparr>u_id = next_user_id w1, u_first_name = [], u_last_name = [],
                             u_email = email, u_phone = phone, u_password_hash = []\<rparr>]\<rparr>))"
proof (intro conjI allI impI)
  assume g: "email = [] \<or> users_by_email (committed w) email \<noteq> []"
  show "users (committed w') = users (committed w)"
  proof (cases "\<exists>rb. out = Response 200 rb")
    case False
    with assms(1) have "committed w' = committed w" by (simp add: checkout_not_200)
    then show ?thesis by simp
  next
    case True
    then obtain rb where "checkout sn (Some b) w = (Response 200 rb, w')" using assms(1) by blast
    then show ?thesis
    proof (cases rule: checkout_success)
      case (1 its sub disc t uid new_users rows)
      from 1(7) 1(8) g assms(2) have "new_users = []"
        by (cases "users_by_email (committed w) email") auto
      with 1(6) show ?thesis by simp
    qed
  qed
next
  fix rb
  assume "out = Response 200 rb"
  with assms(1) have "checkout sn (Some b) w = (Response 200 rb, w')" by simp
  then show "\<exists>ord. orders (committed w') = orders (committed w) @ [ord] \<and>
               (if email = [] then o_user_id ord = None
                else case users_by_email (committed w) email of
                       i # rest \<Rightarrow> o_user_id ord = Some i
                     | [] \<Rightarrow> o_user_id ord = Some (next_user_id w) \<and>
                         users (committed w') = users (committed w) @
                           [\<lparr>u_id = next_user_id w, u_first_name = [], u_last_name = [],
                             u_email = email, u_phone = phone, u_password_hash = []\<rparr>])"
  proof (cases rule: checkout_success)
    case (1 its sub disc t uid new_users rows)
    let ?ord = "new_order (next_order_id w) uid (or_empty (b_sessionId b)) t ''created''"
    have o: "orders (committed w') = orders (committed w) @ [?ord]"
      and u: "users (committed w') = users (committed w) @ new_users"
      using 1(6) by simp_all
    have i: "\<And>n x sid t st. o_user_id (new_order n x sid t st) = x" by (simp add: new_order_def)
    have "if email = [] then uid = None
          else case users_by_email (committed w) email of
                 i # rest \<Rightarrow> uid = Some i
               | [] \<Rightarrow> uid = Some (next_user_id w) \<and>
                   users (committed w') = users (committed w) @
                     [\<lparr>u_id = next_user_id w, u_first_name = [], u_last_name = [],
                       u_email = email, u_phone = phone, u_password_hash = []\<rparr>]"
      using 1(7) 1(8) u assms(2,3)
      by (cases "users_by_email (committed w) email") (auto simp: new_user_def)
    with o show ?thesis by (intro exI[of _ ?ord]) (simp add: i split: list.splits)
  qed
next
  fix w1 uid w2
  assume "resolve_user email phone w1 = (Inr uid, w2)"
  from resolve_user_Inr[OF this]
  show "if email = [] then uid = None \<and> w2 = w1
        else case users_by_email (conn_view w1) email of
               i # rest \<Rightarrow> uid = Some i \<and> conn_view w2 = conn_view w1
             | [] \<Rightarrow> uid = Some (next_user_id w1) \<and>
                 conn_view w2 = (conn_view w1)
                   \<lparr>users := users (conn_view w1) @
                      [\<lparr>u_id = next_user_id w1, u_first_name = [], u_last_name = [],
                        u_email = email, u_phone = phone, u_password_hash = []\<rparr>]\<rparr>"
    by (auto simp: new_user_def split: list.splits)
qed

theorem user_is_found_or_created_witness:
  "checkout sn0 (Some req_new) w0
     = (fst (checkout sn0 (Some req_new) w0), snd (checkout sn0 (Some req_new) w0)) \<and>
   or_empty (b_email req_new) = ''bob@x.org'' \<and> or_empty (b_phone req_new) = ''222'' \<and>
   fst (checkout sn0 (Some req_new) w0) = Response 200 (Ok_body 1 (Fin 25) (Fin 0) (Fin 25)) \<and>
   users_by_email (committed w0) ''bob@x.org'' = [] \<and>
   (\<exists>ord. orders (committed (snd (checkout sn0 (Some req_new) w0))) = orders (committed w0) @ [ord] \<and>
      o_user_id ord = Some 2 \<and>
      users (committed (snd (checkout sn0 (Some req_new) w0))) = users (committed w0) @
        [\<lparr>u_id = 2, u_first_name = [], u_last_name = [], u_email = ''bob@x.org'',
          u_phone = ''222'', u_password_hash = []\<rparr>]) \<and>
   users (committed (snd (checkout sn0 (Some req_guest) w0))) = users shop \<and>
   map o_user_id (orders (committed (snd (checkout sn0 (Some req_guest) w0)))) = [None] \<and>
   map o_user_id (orders (committed (snd (checkout sn0 (Some req_ann) w0)))) = [Some 1]"
proof -
  have c: "checkout sn0 (Some req_new) w0
     = (fst (checkout sn0 (Some req_new) w0), snd (checkout sn0 (Some req_new) w0))"
    by simp
  have e: "or_empty (b_email req_new) = ''bob@x.org''"
    and p: "or_empty (b_phone req_new) = ''222''"
    by (simp_all add: req_new_def request_def or_empty_def)
  have f: "fst (checkout sn0 (Some req_new) w0) = Response 200 (Ok_body 1 (Fin 25) (Fin 0) (Fin 25))"
    by code_simp
  have n: "users_by_email (committed w0) ''bob@x.org'' = []"
    by code_simp
  have i: "next_user_id w0 = 2" by (simp add: w0_def)
  have g: "users (committed (snd (checkout sn0 (Some req_guest) w0))) = users shop"
    by code_simp
  have h: "map o_user_id (orders (committed (snd (checkout sn0 (Some req_guest) w0)))) = [None]"
    by code_simp
  have a: "map o_user_id (orders (committed (snd (checkout sn0 (Some req_ann) w0)))) = [Some 1]"
    by code_simp
  from user_is_found_or_created [OF c e p] f n i
  have "\<exists>ord. orders (committed (snd (checkout sn0 (Some req_new) w0))) = orders (committed w0) @ [ord] \<and>
      o_user_id ord = Some 2 \<and>
      users (committed (snd (checkout sn0 (Some req_new) w0))) = users (committed w0) @
        [\<lparr>u_id = 2, u_first_name = [], u_last_name = [], u_email = ''bob@x.org'',
          u_phone = ''222'', u_password_hash = []\<rparr>]"
    by simp
  with c e p f n g h a show ?thesis by blast
qed

subsection \<open>Numbers that are not negative\<close>

lemma pow2_pos: "0 < pow2 e"
  by (simp add: pow2_def)

lemma round_half_even_nonneg: "0 \<le> x \<Longrightarrow> 0 \<le> round_half_even x"
  by (auto simp: round_half_even_def Let_def)

lemma round_double_not_negative: "0 \<le> r \<Longrightarrow> not_negative (round_double r)"
proof -
  assume r: "0 \<le> r"
  show ?thesis
  proof (cases "r = 0")
    case True
    then show ?thesis by (simp add: round_double_def)
  next
    case False
    with r have p: "0 < r" by simp
    define e where "e = max (floor_log2 \<bar>r\<bar> - 52) (- 1074)"
    define n where "n = round_half_even (\<bar>r\<bar> / pow2 e)"
    have "0 \<le> \<bar>r\<bar> / pow2 e" using pow2_pos[of e] by simp
    then have "0 \<le> n" unfolding n_def by (rule round_half_even_nonneg)
    then have "0 \<le> sgn r * of_int n * pow2 e"
      using p pow2_pos[of e] by simp
    then show ?thesis
      using False p unfolding round_double_def Let_def e_def[symmetric] n_def[symmetric]
      by simp
  qed
qed

lemma not_negative_add: "not_negative a \<Longrightarrow> not_negative b \<Longrightarrow> not_negative (js_add a b)"
  by (cases a; cases b; simp add: round_double_not_negative)

lemma not_negative_mul: "not_negative a \<Longrightarrow> not_negative b \<Longrightarrow> not_negative (js_mul a b)"
  by (cases a; cases b; simp add: round_double_not_negative)

lemma not_negative_div_100: "not_negative a \<Longrightarrow> not_negative (js_div a (Fin 100))"
  by (cases a; simp add: round_double_not_negative)

lemma not_negative_round: "not_negative a \<Longrightarrow> not_negative (js_round a)"
  by (cases a) simp_all

lemma not_negative_coerce_qty: "not_negative (coerce_qty sn i)"
  unfolding coerce_qty_def
  by (cases "js_Number sn (js_or (qty i) (JNum 1))") simp_all

lemma not_negative_foldl:
  "not_negative a \<Longrightarrow> \<forall>x\<in>set xs. not_negative (f x) \<Longrightarrow>
     not_negative (foldl (\<lambda>a x. js_add a (f x)) a xs)"
  by (induction xs arbitrary: a) (simp_all add: not_negative_add)

lemma not_negative_line_amount:
  assumes "\<forall>v\<in>set (product_variants T). 0 \<le> v_price v"
  shows "not_negative (line_amount sn T it)"
proof (cases it)
  case None
  then show ?thesis by (simp add: line_amount_def)
next
  case (Some i)
  show ?thesis
  proof (cases "variant_of sn T i")
    case None
    with Some show ?thesis by (simp add: line_amount_def)
  next
    case v: (Some row)
    obtain rid p where row: "row = (rid, p)" by (cases row)
    from variant_of_in_table[OF v[unfolded row]] assms have "0 \<le> p" by auto
    then have "not_negative (js_mul (coerce_qty sn i) (round_double p))"
      by (intro not_negative_mul not_negative_coerce_qty round_double_not_negative)
    with Some v row show ?thesis by (simp add: line_amount_def)
  qed
qed

lemma not_negative_sum_of_lines:
  assumes "\<forall>v\<in>set (product_variants T). 0 \<le> v_price v"
  shows "not_negative (sum_of_lines sn T its)"
  unfolding sum_of_lines_def
  by (rule not_negative_foldl) (simp_all add: not_negative_line_amount[OF assms])

lemma total_is_a_number:
  assumes "Fin t = js_max (Fin 0) (js_sub sub disc)" and "not_negative sub"
    and "disc = Fin 0 \<or> (\<exists>a. not_negative a \<and> disc = js_min a sub)"
  shows "\<exists>s d. sub = Fin s \<and> disc = Fin d \<and> 0 \<le> d \<and> d \<le> s"
  using assms(3)
proof
  assume "disc = Fin 0"
  with assms(1,2) show ?thesis by (cases sub) auto
next
  assume "\<exists>a. not_negative a \<and> disc = js_min a sub"
  then obtain a where "not_negative a" "disc = js_min a sub" by blast
  with assms(1,2) show ?thesis by (cases sub; cases a) auto
qed

subsection \<open>The discount\<close>

lemma coupon_value_in_table:
  "c \<in> set (coupons_by_code T t code) \<Longrightarrow>
     \<exists>c'\<in>set (coupons T). c_code c' = code \<and> cr_value c = c_value c'"
  by (auto simp: coupons_by_code_def coupon_result_of_def)

lemma coupon_discount_cases:
  assumes "\<forall>c\<in>set rows. 0 \<le> cr_value c" and "not_negative sub"
  shows "coupon_discount rows sub = Fin 0 \<or>
         (\<exists>a. not_negative a \<and> coupon_discount rows sub = js_min a sub)"
proof (cases rows)
  case Nil
  then show ?thesis by (simp add: coupon_discount_def)
next
  case (Cons c0 rest)
  define a where
    "a = (if discount_type c0 = ''percent''
          then js_div
                 (js_round
                    (js_mul (js_mul sub (js_div (round_double (cr_value c0)) (Fin 100))) (Fin 100)))
                 (Fin 100)
          else round_double (cr_value c0))"
  from Cons assms(1) have "not_negative (round_double (cr_value c0))"
    by (simp add: round_double_not_negative)
  moreover have "not_negative (Fin 100)" by simp
  ultimately have nn: "not_negative a"
    unfolding a_def using assms(2)
    by (simp add: not_negative_div_100 not_negative_round not_negative_mul)
  have "coupon_discount rows sub = Fin 0 \<or> coupon_discount rows sub = js_min a sub"
    using Cons unfolding coupon_discount_def a_def by simp
  with nn show ?thesis by blast
qed

text \<open>
  Claim C4, as it is stated, fails: the handler clamps the discount from above only. With a
  stored coupon whose value is -5 the checkout succeeds with subtotal 50, discount -5 and
  total 55.
\<close>

theorem discount_lower_bound_counterexample:
  "fst (checkout sn0 (Some req_minus) w0) = Response 200 (Ok_body 1 (Fin 50) (Fin (- 5)) (Fin 55)) \<and>
   \<not> (0 :: rat) \<le> - 5"
proof -
  have "fst (checkout sn0 (Some req_minus) w0)
          = Response 200 (Ok_body 1 (Fin 50) (Fin (- 5)) (Fin 55))"
    by code_simp
  then show ?thesis by simp
qed

text \<open>
  Claim C4, amended. For every successful checkout on tables in which no variant has a
  negative price and no coupon with the requested code has a negative value, whatever the
  coupon's type, minimum subtotal and expiry, the subtotal and the discount are numbers and
  0 \<le> discount \<le> subtotal.
\<close>

theorem discount_between_zero_and_subtotal:
  assumes "checkout sn (Some b) w = (Response 200 (Ok_body oid sub disc tot), w')"
    and "\<forall>v\<in>set (product_variants (committed w)). 0 \<le> v_price v"
    and "\<forall>c\<in>set (coupons (committed w)).
           c_code c = or_empty (b_couponCode b) \<longrightarrow> 0 \<le> c_value c"
  shows "\<exists>s d. sub = Fin s \<and> disc = Fin d \<and> 0 \<le> d \<and> d \<le> s"
  using assms(1)
proof (cases rule: checkout_success)
  case (1 its sub' disc' t uid new_users rows)
  then have e: "sub' = sub" "disc' = disc" by simp_all
  have s: "not_negative sub"
    using 1(10) not_negative_sum_of_lines[OF assms(2)] e by simp
  let ?rows = "coupons_by_code (committed w) (clock w) (or_empty (b_couponCode b))"
  have "\<forall>c\<in>set ?rows. 0 \<le> cr_value c"
    using coupon_value_in_table assms(3) by fastforce
  then have "coupon_discount ?rows sub = Fin 0 \<or>
      (\<exists>a. not_negative a \<and> coupon_discount ?rows sub = js_min a sub)"
    using s by (rule coupon_discount_cases)
  with 1(5) e have "disc = Fin 0 \<or> (\<exists>a. not_negative a \<and> disc = js_min a sub)"
    by (auto split: if_splits)
  with 1(4) e s show ?thesis by (intro total_is_a_number[of t]) simp_all
qed

theorem discount_between_zero_and_subtotal_witness:
  "checkout sn0 (Some req_ann) w0
     = (Response 200 (Ok_body 1 (Fin 45) (Fin (9 / 2)) (Fin (81 / 2))),
        snd (checkout sn0 (Some req_ann) w0)) \<and>
   list_all (\<lambda>v. 0 \<le> v_price v) (product_variants (committed w0)) \<and>
   map c_value (filter (\<lambda>c. c_code c = or_empty (b_couponCode req_ann)) (coupons (committed w0)))
     = [10] \<and>
   (\<exists>s d. Fin 45 = Fin s \<and> Fin (9 / 2) = Fin d \<and> 0 \<le> d \<and> d \<le> s)"
proof -
  have f: "fst (checkout sn0 (Some req_ann) w0)
             = Response 200 (Ok_body 1 (Fin 45) (Fin (9 / 2)) (Fin (81 / 2)))"
    by code_simp
  then have c: "checkout sn0 (Some req_ann) w0
     = (Response 200 (Ok_body 1 (Fin 45) (Fin (9 / 2)) (Fin (81 / 2))),
        snd (checkout sn0 (Some req_ann) w0))"
    by (simp add: prod_eq_iff)
  have p: "\<forall>v\<in>set (product_variants (committed w0)). 0 \<le> v_price v"
    by (simp add: w0_def shop_def)
  have v: "\<forall>c\<in>set (coupons (committed w0)).
      c_code c = or_empty (b_couponCode req_ann) \<longrightarrow> 0 \<le> c_value c"
    by (simp add: w0_def shop_def req_ann_def request_def or_empty_def)
  have p': "list_all (\<lambda>v. 0 \<le> v_price v) (product_variants (committed w0))"
    by (simp add: w0_def shop_def)
  have v': "map c_value
              (filter (\<lambda>c. c_code c = or_empty (b_couponCode req_ann)) (coupons (committed w0)))
              = [10]"
    by (simp add: w0_def shop_def req_ann_def request_def or_empty_def)
  from discount_between_zero_and_subtotal [OF c p v] c p' v'
  show ?thesis by blast
qed

end
